theory Spec2Isabelle
  imports Complex_Main "HOL-Library.Log_Nat"
begin

section \<open>Flocculant preparation: the calculation core of both variants\<close>

text \<open>
  The repository holds two variants of one Streamlit tool: \<^verbatim>\<open>app.py\<close>, the first pass,
  and \<^verbatim>\<open>mode_flocculant_agent.py\<close>, the mode-aware rewrite. Both are embedded here.

  Numbers. Amounts and concentrations are Python floats in the source: doubles. They are
  modelled by the reals they denote. Python rounds the result of each operation to the
  nearest double; the subsection on double precision models that rounding. The handler of
  the final dilution, whose branch depends on a computed number, computes with the
  rounded numbers. The functions \<open>calculate_solution\<close>, \<open>app_calculate_solution\<close>,
  \<open>stock_needed\<close> and \<open>water_needed\<close> are the formulas in exact arithmetic;
  \<open>calculate_solution_double\<close>, \<open>stock_needed_double\<close> and \<open>water_needed_double\<close> are
  the same lines as Python evaluates them. The two amounts that the handler of the stock
  solution stores come from \<open>calculate_solution\<close>; the code displays them and no branch
  reads them. NaN and the infinities are not modelled: where a result would be an
  infinity the run ends with \<open>Infinite_result\<close>, and \<open>main_run_total\<close> shows that no run
  of a reachable session ends so.

  Effects. A function of \<^verbatim>\<open>mode_flocculant_agent.py\<close> can read and write
  \<^verbatim>\<open>st.session_state\<close>, write to the logger and show messages on the page. All of this is
  the record \<open>world\<close>, which every embedded function receives and returns. An exception
  that leaves a function is the \<open>Inl\<close> branch of a sum.
\<close>

subsection \<open>Values, events and the session\<close>

text \<open>
  The exceptions that can leave the embedded code. \<open>Infinite_result\<close> is no exception of
  Python: it marks a run in which an arithmetic result is an infinity.
\<close>

datatype py_error = KeyError | TypeError | AttributeError | ZeroDivisionError | Infinite_result

text \<open>The values stored in the two result dictionaries of the session.\<close>

datatype pyval = Float real | Str string

type_synonym pydict = "string \<rightharpoonup> pyval"

text \<open>
  What a run writes to the logger and to the page. The two messages that embed numbers
  formatted with two decimals carry the numbers themselves: \<open>Logger_info_calculated\<close> is
  \<^verbatim>\<open>logger.info(f"Calculated: {solute_amount:.2f} solute, {solvent_amount:.2f} solvent")\<close>
  and \<open>St_error_insufficient need unit available\<close> is the "Insufficient stock solution!"
  error of the final dilution. \<open>St_warning_stock_first\<close> and \<open>St_warning_both_first\<close> are
  the warnings of the second and the third tab before \<^verbatim>\<open>st.stop()\<close>, \<open>St_success_reset\<close>
  is the message of the reset button. The metrics and instructions that the tabs display
  are not events; only the reading of the stored records that they need is modelled.
\<close>

datatype event =
    Logger_info_calculated real real
  | Logger_error string
  | St_error string
  | St_error_insufficient real string real
  | St_warning_stock_first
  | St_warning_both_first
  | St_success_reset

text \<open>
  \<^verbatim>\<open>st.session_state\<close> with the keys of \<^verbatim>\<open>init_session_state\<close>. The empty
  dictionary \<^verbatim>\<open>{}\<close> is \<^term>\<open>Map.empty\<close>. The key \<^verbatim>\<open>stock_conc\<close> is the one key whose
  presence the code tests (\<^verbatim>\<open>'stock_conc' in st.session_state\<close>), so it is optional here.
\<close>

record session_state =
  mode :: string
  unit_type :: string
  step1_completed :: bool
  step2_completed :: bool
  stock_calculations :: pydict
  dilution_calculations :: pydict
  stock_amount :: real
  stock_conc :: "real option"
  final_amount :: real
  final_conc :: real

record world =
  session :: session_state
  events :: "event list"

definition emit :: "event \<Rightarrow> world \<Rightarrow> world" where
  "emit e w = w\<lparr>events := events w @ [e]\<rparr>"

definition update_session :: "(session_state \<Rightarrow> session_state) \<Rightarrow> world \<Rightarrow> world" where
  "update_session f w = w\<lparr>session := f (session w)\<rparr>"

text \<open>\<^verbatim>\<open>d[k]\<close> where the value is used as a number.\<close>

definition get_float :: "pydict \<Rightarrow> string \<Rightarrow> py_error + real" where
  "get_float d k =
     (case d k of
        None \<Rightarrow> Inl KeyError
      | Some (Float x) \<Rightarrow> Inr x
      | Some (Str _) \<Rightarrow> Inl TypeError)"

subsection \<open>Double precision\<close>

text \<open>
  Python evaluates the arithmetic of both files in IEEE 754 binary64: each operation gives
  the exact result rounded to the nearest double, ties to the even mantissa. A finite
  double is \<open>n * 2 powi q\<close> with an integer \<open>n\<close> below \<open>2 ^ 53\<close> in absolute value and
  \<open>q\<close> from \<open>-1074\<close> on. \<open>nearest_double\<close> is that rounding with the exponent unbounded
  above; \<open>round_double\<close> is \<open>None\<close> where Python gives an infinity, which is not
  modelled further. Comparisons of doubles are exact, so they are the comparisons of the
  reals.
\<close>

definition round_half_even :: "real \<Rightarrow> int" where
  "round_half_even x =
     (let f = \<lfloor>x\<rfloor>; r = x - of_int f in
      if r < 1 / 2 then f else if 1 / 2 < r then f + 1 else if even f then f else f + 1)"

definition min_exponent :: int where
  "min_exponent = - 1074"

text \<open>The exponent of the unit in the last place of the doubles around \<open>x\<close>.\<close>

definition ulp_exponent :: "real \<Rightarrow> int" where
  "ulp_exponent x =
     max (bitlen \<lfloor>\<bar>x\<bar> * 2 powi (- min_exponent)\<rfloor> - 53 + min_exponent) min_exponent"

definition nearest_double :: "real \<Rightarrow> real" where
  "nearest_double x =
     (let q = ulp_exponent x in of_int (round_half_even (x / 2 powi q)) * 2 powi q)"

definition round_double :: "real \<Rightarrow> real option" where
  "round_double x =
     (let y = nearest_double x in if \<bar>y\<bar> < 2 powi 1024 then Some y else None)"

definition is_double :: "real \<Rightarrow> bool" where
  "is_double x = (round_double x = Some x)"

text \<open>The number with the mantissa \<open>n\<close> and the exponent \<open>q\<close>.\<close>

definition double_of :: "int \<Rightarrow> int \<Rightarrow> real" where
  "double_of n q = of_int n * 2 powi q"

text \<open>
  Line 544 of \<^verbatim>\<open>mode_flocculant_agent.py\<close>,
  \<^verbatim>\<open>stock_needed = (final_conc * final_amount) / stock_conc\<close>, as Python evaluates it on
  doubles with a stock concentration other than zero.
\<close>

definition stock_needed_double :: "real \<Rightarrow> real \<Rightarrow> real \<Rightarrow> real option" where
  "stock_needed_double final_conc' final_amount' stock_conc' =
     (case round_double (final_conc' * final_amount') of
        None \<Rightarrow> None
      | Some product \<Rightarrow> round_double (product / stock_conc'))"

text \<open>Line 545, \<^verbatim>\<open>water_needed = final_amount - stock_needed\<close>, likewise.\<close>

definition water_needed_double :: "real \<Rightarrow> real \<Rightarrow> real option" where
  "water_needed_double final_amount' stock_needed' = round_double (final_amount' - stock_needed')"

text \<open>
  The three arithmetic lines of \<^verbatim>\<open>calculate_solution\<close>, the same in both files, as Python
  evaluates them on doubles: the fraction, the solute, the solvent.
\<close>

definition calculate_solution_double :: "real \<Rightarrow> real \<Rightarrow> (real \<times> real) option" where
  "calculate_solution_double amount concentration =
     (case round_double (concentration / 100) of
        None \<Rightarrow> None
      | Some fraction \<Rightarrow>
          (case round_double (amount * fraction) of
             None \<Rightarrow> None
           | Some solute_amount \<Rightarrow>
               (case round_double (amount - solute_amount) of
                  None \<Rightarrow> None
                | Some solvent_amount \<Rightarrow> Some (solute_amount, solvent_amount))))"

subsection \<open>\<^verbatim>\<open>app.py\<close>\<close>

text \<open>
  The module-level variables of the script that exist when \<^verbatim>\<open>calculate_solution\<close> can be
  called. The function reads none of them.
\<close>

record app_globals =
  app_stock_amount :: real
  app_stock_conc :: real
  app_step1_complete :: bool
  app_step2_complete :: bool

text \<open>The values the script gives them before the first tab (lines 66, 67, 74, 75).\<close>

definition app_start :: app_globals where
  "app_start =
     \<lparr>app_stock_amount = 0, app_stock_conc = 0,
      app_step1_complete = False, app_step2_complete = False\<rparr>"

definition app_calculate_solution :: "real \<Rightarrow> real \<Rightarrow> app_globals \<Rightarrow> real \<times> real" where
  "app_calculate_solution target_amount concentration g =
     (let frac = concentration / 100;
          emulsion = target_amount * frac;
          water = target_amount - emulsion
      in (emulsion, water))"

text \<open>
  Step 1 of the script (lines 74 to 92): the two inputs, the split, the completion flag.
\<close>

definition app_step1 :: "real \<Rightarrow> real \<Rightarrow> app_globals \<Rightarrow> (real \<times> real) \<times> app_globals" where
  "app_step1 stock_amount' stock_conc' g =
     (let g1 = g\<lparr>app_stock_amount := stock_amount', app_stock_conc := stock_conc'\<rparr>;
          (emul, wat) = app_calculate_solution stock_amount' stock_conc' g1;
          g2 = g1\<lparr>app_step1_complete := (stock_amount' > 0 \<and> stock_conc' > 0)\<rparr>
      in ((emul, wat), g2))"

text \<open>
  Step 2 of the script (lines 122 to 138). It runs only when step 1 is complete; the pair
  is \<^verbatim>\<open>(stock_needed, water_needed)\<close>.
\<close>

definition app_step2 :: "real \<Rightarrow> real \<Rightarrow> app_globals \<Rightarrow> (real \<times> real) option \<times> app_globals" where
  "app_step2 final_amount' final_conc' g =
     (if app_step1_complete g then
        (let (stock_needed, water_needed) = app_calculate_solution final_amount' final_conc' g;
             g1 = g\<lparr>app_step2_complete := (final_amount' > 0 \<and> final_conc' > 0)\<rparr>
         in (Some (stock_needed, water_needed), g1))
      else (None, g))"

subsection \<open>\<^verbatim>\<open>mode_flocculant_agent.py\<close>: the two functions\<close>

text \<open>
  The body of the \<^verbatim>\<open>try\<close> block of \<^verbatim>\<open>calculate_solution\<close>: \<open>Inl\<close> is the message of
  the \<^verbatim>\<open>ValueError\<close> it raises.
\<close>

definition calculate_solution_try ::
  "real \<Rightarrow> real \<Rightarrow> world \<Rightarrow> string + ((real \<times> real) \<times> world)" where
  "calculate_solution_try amount concentration w =
     (if amount \<le> 0 \<or> concentration \<le> 0 then
        Inl ''Amount and concentration must be positive''
      else
        (let fraction = concentration / 100;
             solute_amount = amount * fraction;
             solvent_amount = amount - solute_amount
         in Inr ((solute_amount, solvent_amount),
                 emit (Logger_info_calculated solute_amount solvent_amount) w)))"

text \<open>The whole function: the \<^verbatim>\<open>except\<close> clause logs, shows the error and returns zeros.\<close>

definition calculate_solution :: "real \<Rightarrow> real \<Rightarrow> world \<Rightarrow> (real \<times> real) \<times> world" where
  "calculate_solution amount concentration w =
     (case calculate_solution_try amount concentration w of
        Inr r \<Rightarrow> r
      | Inl e \<Rightarrow>
          ((0, 0),
           emit (St_error (''Calculation error: '' @ e))
             (emit (Logger_error (''Calculation error: '' @ e)) w)))"

text \<open>
  \<^verbatim>\<open>validate_inputs\<close> reads the session and writes nothing. Each \<^verbatim>\<open>if\<close> of the source
  is one step on the list \<^verbatim>\<open>errors\<close>.
\<close>

definition validate_inputs :: "real \<Rightarrow> real \<Rightarrow> string \<Rightarrow> session_state \<Rightarrow> string list" where
  "validate_inputs amount concentration step_name s =
     (let errors = [];
          errors = (if amount \<le> 0
                    then errors @ [step_name @ '': Amount must be greater than 0'']
                    else errors);
          errors = (if concentration \<le> 0
                    then errors @ [step_name @ '': Concentration must be greater than 0'']
                    else errors);
          errors = (if concentration \<ge> 100
                    then errors @ [step_name @ '': Concentration must be less than 100%'']
                    else errors);
          errors = (if step_name = ''Final Dilution'' \<and> stock_conc s \<noteq> None
                    then (if concentration \<ge> the (stock_conc s)
                          then errors @ [''Final concentration should be lower than stock concentration'']
                          else errors)
                    else errors);
          errors = (if amount > 10000
                    then errors @ [step_name @ '': Amount seems unreasonably large (>10000)'']
                    else errors)
      in errors)"

subsection \<open>\<^verbatim>\<open>mode_flocculant_agent.py\<close>: constants and session helpers\<close>

text \<open>
  The literals \<^verbatim>\<open>0.3\<close> and \<^verbatim>\<open>0.1\<close> of the source are the doubles nearest to three
  tenths and to one tenth.
\<close>

definition SOP_PRESETS :: "string \<rightharpoonup> real \<times> real" where
  "SOP_PRESETS =
     [''1% Latex Stock (200 g)'' \<mapsto> (200, 1),
      ''0.3% Dry Floc Stock (200 g)'' \<mapsto> (200, double_of 5404319552844595 (- 54)),
      ''0.1% Working Solution from 1%'' \<mapsto> (200, double_of 7205759403792794 (- 56))]"

definition UNIT_CONFIGS :: "string \<rightharpoonup> string \<times> string" where
  "UNIT_CONFIGS =
     [''Weight (g) / % w/w'' \<mapsto> (''g'', ''% w/w''),
      ''Volume (mL) / % v/v'' \<mapsto> (''mL'', ''% v/v'')]"

text \<open>The session that \<^verbatim>\<open>init_session_state\<close> builds from an empty \<^verbatim>\<open>st.session_state\<close>.\<close>

definition fresh_session :: session_state where
  "fresh_session =
     \<lparr>mode = ''Manual Input'',
      unit_type = ''Weight (g) / % w/w'',
      step1_completed = False,
      step2_completed = False,
      stock_calculations = Map.empty,
      dilution_calculations = Map.empty,
      stock_amount = 50,
      stock_conc = Some 1,
      final_amount = 200,
      final_conc = double_of 7205759403792794 (- 56)\<rparr>"

definition fresh_world :: world where
  "fresh_world = \<lparr>session = fresh_session, events = []\<rparr>"

text \<open>
  \<^verbatim>\<open>init_session_state\<close> on a later run: \<^verbatim>\<open>setdefault\<close> keeps every key that is present.
\<close>

definition init_session_state :: "session_state \<Rightarrow> session_state" where
  "init_session_state s =
     (case stock_conc s of None \<Rightarrow> s\<lparr>stock_conc := Some 1\<rparr> | Some _ \<Rightarrow> s)"

definition reset_calculations :: "session_state \<Rightarrow> session_state" where
  "reset_calculations s =
     s\<lparr>step1_completed := False,
       step2_completed := False,
       stock_calculations := Map.empty,
       dilution_calculations := Map.empty\<rparr>"

definition get_unit_config :: "session_state \<Rightarrow> string \<times> string" where
  "get_unit_config s =
     (case UNIT_CONFIGS (unit_type s) of
        Some c \<Rightarrow> c
      | None \<Rightarrow> (''g'', ''% w/w''))"

text \<open>\<^verbatim>\<open>for err in errors: st.error(err)\<close>\<close>

definition show_errors :: "string list \<Rightarrow> world \<Rightarrow> world" where
  "show_errors errors w = foldl (\<lambda>w err. emit (St_error err) w) w errors"

subsection \<open>\<^verbatim>\<open>mode_flocculant_agent.py\<close>: the two button handlers of \<^verbatim>\<open>main\<close>\<close>

text \<open>The handler of "Calculate Stock Solution" (lines 442 to 459).\<close>

definition calculate_stock_solution_button :: "world \<Rightarrow> py_error + world" where
  "calculate_stock_solution_button w =
     (let s = session w in
      case stock_conc s of
        None \<Rightarrow> Inl AttributeError
      | Some sc \<Rightarrow>
          (let errors = validate_inputs (stock_amount s) sc ''Stock Solution'' s in
           if errors \<noteq> [] then
             Inr (update_session (\<lambda>s. s\<lparr>step1_completed := False\<rparr>) (show_errors errors w))
           else
             (let ((emulsion, water), w1) = calculate_solution (stock_amount s) sc w;
                  (unit, conc_unit) = get_unit_config s
              in Inr (update_session
                        (\<lambda>s. s\<lparr>stock_calculations :=
                                  [''emulsion_needed'' \<mapsto> Float emulsion,
                                   ''water_needed'' \<mapsto> Float water,
                                   ''stock_amount'' \<mapsto> Float (stock_amount s),
                                   ''stock_conc'' \<mapsto> Float sc,
                                   ''unit'' \<mapsto> Str unit,
                                   ''conc_unit'' \<mapsto> Str conc_unit],
                                step1_completed := True\<rparr>)
                        w1))))"

text \<open>
  Lines 543 to 545 in exact arithmetic:
  \<^verbatim>\<open>stock_needed = (final_conc * final_amount) / stock_conc\<close> and
  \<^verbatim>\<open>water_needed = final_amount - stock_needed\<close>.
\<close>

definition stock_needed :: "real \<Rightarrow> real \<Rightarrow> real \<Rightarrow> real" where
  "stock_needed final_conc' final_amount' stock_conc' =
     (final_conc' * final_amount') / stock_conc'"

definition water_needed :: "real \<Rightarrow> real \<Rightarrow> real" where
  "water_needed final_amount' stock_needed' = final_amount' - stock_needed'"

text \<open>
  The handler of "Calculate Final Dilution" (lines 530 to 561). The two numbers are the
  doubles that Python computes, and the test of line 549 is made on them. The division by
  zero is raised at line 544, before anything else is read. With valid inputs in a
  consistent session both numbers are finite (\<open>final_button_valid\<close>).
\<close>

definition calculate_final_dilution_button :: "world \<Rightarrow> py_error + world" where
  "calculate_final_dilution_button w =
     (let s = session w;
          errors = validate_inputs (final_amount s) (final_conc s) ''Final Dilution'' s in
      if errors \<noteq> [] then
        Inr (update_session (\<lambda>s. s\<lparr>step2_completed := False\<rparr>) (show_errors errors w))
      else
        (case get_float (stock_calculations s) ''stock_conc'' of
           Inl e \<Rightarrow> Inl e
         | Inr stock_conc' \<Rightarrow>
             (let final_conc' = final_conc s;
                  final_amount' = final_amount s in
              if stock_conc' = 0 then Inl ZeroDivisionError
              else
                (case stock_needed_double final_conc' final_amount' stock_conc' of
                   None \<Rightarrow> Inl Infinite_result
                 | Some stock_needed' \<Rightarrow>
                     (case water_needed_double final_amount' stock_needed' of
                        None \<Rightarrow> Inl Infinite_result
                      | Some water_needed' \<Rightarrow>
                          (case get_float (stock_calculations s) ''stock_amount'' of
                             Inl e \<Rightarrow> Inl e
                           | Inr available_stock \<Rightarrow>
                               (let (unit, conc_unit) = get_unit_config s in
                                if stock_needed' > available_stock then
                                  Inr (update_session (\<lambda>s. s\<lparr>step2_completed := False\<rparr>)
                                         (emit (St_error_insufficient stock_needed' unit
                                                  available_stock) w))
                                else
                                  Inr (update_session
                                         (\<lambda>s. s\<lparr>dilution_calculations :=
                                                   [''stock_needed'' \<mapsto> Float stock_needed',
                                                    ''water_needed'' \<mapsto> Float water_needed',
                                                    ''final_amount'' \<mapsto> Float final_amount',
                                                    ''final_conc'' \<mapsto> Float final_conc',
                                                    ''unit'' \<mapsto> Str unit,
                                                    ''conc_unit'' \<mapsto> Str conc_unit],
                                                 step2_completed := True\<rparr>)
                                         w))))))))"

subsection \<open>\<^verbatim>\<open>mode_flocculant_agent.py\<close>: one run of \<^verbatim>\<open>main\<close>\<close>

text \<open>
  Streamlit runs \<^verbatim>\<open>main\<close> from the top at every interaction. The widgets return the
  values below; a button is true in the one run that its click starts.
\<close>

record widgets =
  reset_button :: bool
  new_mode :: string
  new_unit_type :: string
  selected_preset :: string
  new_amount :: real
  new_conc :: real
  stock_button :: bool
  new_final_amount :: real
  new_final_conc :: real
  final_button :: bool

definition and_then :: "py_error + 'a \<Rightarrow> ('a \<Rightarrow> py_error + 'b) \<Rightarrow> py_error + 'b" where
  "and_then r f = (case r of Inl e \<Rightarrow> Inl e | Inr x \<Rightarrow> f x)"

text \<open>Lines 372 to 376 and 379 to 383.\<close>

definition select_mode :: "string \<Rightarrow> session_state \<Rightarrow> session_state" where
  "select_mode new_mode' s =
     (if new_mode' \<noteq> mode s then reset_calculations (s\<lparr>mode := new_mode'\<rparr>) else s)"

definition select_units :: "string \<Rightarrow> session_state \<Rightarrow> session_state" where
  "select_units new_unit_type' s =
     (if new_unit_type' \<noteq> unit_type s
      then reset_calculations (s\<lparr>unit_type := new_unit_type'\<rparr>) else s)"

text \<open>Lines 389 to 399. The \<^verbatim>\<open>or\<close> reads \<^verbatim>\<open>stock_conc\<close> only when the amounts agree.\<close>

definition select_preset :: "string \<Rightarrow> session_state \<Rightarrow> py_error + session_state" where
  "select_preset selected_preset' s =
     (if mode s = ''SOP-Driven'' then
        (case SOP_PRESETS selected_preset' of
           None \<Rightarrow> Inl KeyError
         | Some (amount, conc) \<Rightarrow>
             (let s' = reset_calculations (s\<lparr>stock_amount := amount, stock_conc := Some conc\<rparr>) in
              if stock_amount s \<noteq> amount then Inr s'
              else (case stock_conc s of
                      None \<Rightarrow> Inl AttributeError
                    | Some c \<Rightarrow> if c \<noteq> conc then Inr s' else Inr s)))
      else Inr s)"

text \<open>Lines 408 to 434: the two inputs of the first tab in manual mode.\<close>

definition stock_inputs :: "real \<Rightarrow> real \<Rightarrow> session_state \<Rightarrow> py_error + session_state" where
  "stock_inputs new_amount' new_conc' s =
     (if mode s = ''Manual Input'' then
        (case stock_conc s of
           None \<Rightarrow> Inl AttributeError
         | Some c \<Rightarrow>
             if new_amount' \<noteq> stock_amount s \<or> new_conc' \<noteq> c
             then Inr (reset_calculations (s\<lparr>stock_amount := new_amount', stock_conc := Some new_conc'\<rparr>))
             else Inr s)
      else Inr s)"

text \<open>Lines 496 to 522: the two inputs of the second tab in manual mode.\<close>

definition final_inputs :: "real \<Rightarrow> real \<Rightarrow> session_state \<Rightarrow> session_state" where
  "final_inputs new_final_amount' new_final_conc' s =
     (if mode s = ''Manual Input'' then
        (if new_final_amount' \<noteq> final_amount s \<or> new_final_conc' \<noteq> final_conc s
         then s\<lparr>final_amount := new_final_amount',
                final_conc := new_final_conc',
                step2_completed := False\<rparr>
         else s)
      else s)"

text \<open>
  The display of the stock result (lines 462 to 486) and of the dilution result (lines 564
  to 588): each reads the stored record when its step is complete, and a missing key
  raises.
\<close>

definition show_stock_result :: "world \<Rightarrow> py_error + world" where
  "show_stock_result w =
     (if step1_completed (session w) then
        (let calc = stock_calculations (session w) in
         and_then (get_float calc ''emulsion_needed'')
           (\<lambda>emulsion. and_then (get_float calc ''water_needed'')
              (\<lambda>water. and_then (get_float calc ''stock_amount'')
                 (\<lambda>amount. Inr w))))
      else Inr w)"

definition show_dilution_result :: "world \<Rightarrow> py_error + world" where
  "show_dilution_result w =
     (if step2_completed (session w) then
        (let calc = dilution_calculations (session w) in
         and_then (get_float calc ''stock_needed'')
           (\<lambda>stock. and_then (get_float calc ''water_needed'')
              (\<lambda>water. and_then (get_float calc ''final_amount'')
                 (\<lambda>amount. Inr w))))
      else Inr w)"

text \<open>
  The first tab (lines 405 to 486): the inputs, the button, the display.
\<close>

definition tab1 :: "widgets \<Rightarrow> world \<Rightarrow> py_error + world" where
  "tab1 i w =
     and_then (stock_inputs (new_amount i) (new_conc i) (session w))
       (\<lambda>s1. let w1 = w\<lparr>session := s1\<rparr> in
              and_then (if stock_button i then calculate_stock_solution_button w1 else Inr w1)
                show_stock_result)"

text \<open>
  The second tab after its check of step 1 (lines 494 to 588): the inputs, the button, the
  display.
\<close>

definition tab2 :: "widgets \<Rightarrow> world \<Rightarrow> py_error + world" where
  "tab2 i w =
     (let w1 = update_session (final_inputs (new_final_amount i) (new_final_conc i)) w in
      and_then (if final_button i then calculate_final_dilution_button w1 else Inr w1)
        show_dilution_result)"

text \<open>
  The third tab after its check of step 2 (lines 597 to 630): the summary table and the
  material balance read both stored records. The two report buttons hand the records to
  the generators, which catch their own exceptions; they are not modelled.
\<close>

definition tab3 :: "world \<Rightarrow> py_error + world" where
  "tab3 w =
     (let stock = stock_calculations (session w);
          final = dilution_calculations (session w) in
      and_then (get_float stock ''stock_amount'')
        (\<lambda>a. and_then (get_float stock ''stock_conc'')
           (\<lambda>b. and_then (get_float stock ''emulsion_needed'')
              (\<lambda>c. and_then (get_float stock ''water_needed'')
                 (\<lambda>d. and_then (get_float final ''final_amount'')
                    (\<lambda>e. and_then (get_float final ''final_conc'')
                       (\<lambda>f. and_then (get_float final ''stock_needed'')
                          (\<lambda>g. and_then (get_float final ''water_needed'')
                             (\<lambda>h. Inr w)))))))))"

text \<open>
  The run from the mode selection on (lines 370 to 655). \<^verbatim>\<open>st.stop()\<close> ends the run in
  the second tab when step 1 is not complete, and in the third tab when step 2 is not
  complete.
\<close>

definition main_body :: "widgets \<Rightarrow> world \<Rightarrow> py_error + world" where
  "main_body i w =
     (let s1 = select_units (new_unit_type i) (select_mode (new_mode i) (session w)) in
      and_then (select_preset (selected_preset i) s1)
        (\<lambda>s2. and_then (tab1 i (w\<lparr>session := s2\<rparr>))
           (\<lambda>w2. if \<not> step1_completed (session w2) then Inr (emit St_warning_stock_first w2)
                  else and_then (tab2 i w2)
                    (\<lambda>w3. if \<not> step2_completed (session w3)
                           then Inr (emit St_warning_both_first w3)
                           else tab3 w3))))"

text \<open>
  The whole run. The reset button of the sidebar (lines 365 to 368) resets and calls
  \<^verbatim>\<open>st.rerun()\<close>: the script starts again, and no button is pressed in that run.
\<close>

definition main_run :: "widgets \<Rightarrow> world \<Rightarrow> py_error + world" where
  "main_run i w =
     (let w0 = update_session init_session_state w in
      if reset_button i then
        main_body (i\<lparr>reset_button := False, stock_button := False, final_button := False\<rparr>)
          (update_session init_session_state
             (emit St_success_reset (update_session reset_calculations w0)))
      else main_body i w0)"

text \<open>
  What the widgets can return: the four numbers are doubles, and the selected recipe is
  one of the three.
\<close>

definition widgets_ok :: "widgets \<Rightarrow> bool" where
  "widgets_ok i =
     (is_double (new_amount i) \<and> is_double (new_conc i) \<and>
      is_double (new_final_amount i) \<and> is_double (new_final_conc i) \<and>
      SOP_PRESETS (selected_preset i) \<noteq> None)"

text \<open>The worlds that a sequence of runs reaches from a new session.\<close>

inductive reachable :: "world \<Rightarrow> bool" where
  start: "reachable fresh_world"
| run: "reachable w \<Longrightarrow> widgets_ok i \<Longrightarrow> main_run i w = Inr w' \<Longrightarrow> reachable w'"

subsection \<open>The validator as the specification words it\<close>

text \<open>
  The five rules of the specification, in its order, each with the condition under which
  it holds and the message the code gives for its violation. \<open>spec_validate\<close> follows
  the specification: every rule is checked, and each violated rule gives one message.
\<close>

datatype rule =
    Amount_positive
  | Concentration_positive
  | Concentration_below_100
  | Final_below_stock
  | Amount_within_bound

definition all_rules :: "rule list" where
  "all_rules =
     [Amount_positive, Concentration_positive, Concentration_below_100,
      Final_below_stock, Amount_within_bound]"

fun rule_holds :: "rule \<Rightarrow> real \<Rightarrow> real \<Rightarrow> string \<Rightarrow> session_state \<Rightarrow> bool" where
  "rule_holds Amount_positive amount concentration step_name s = (amount > 0)"
| "rule_holds Concentration_positive amount concentration step_name s = (concentration > 0)"
| "rule_holds Concentration_below_100 amount concentration step_name s = (concentration < 100)"
| "rule_holds Final_below_stock amount concentration step_name s =
     (case stock_conc s of
        None \<Rightarrow> True
      | Some prior \<Rightarrow> if step_name = ''Final Dilution'' then concentration < prior else True)"
| "rule_holds Amount_within_bound amount concentration step_name s = (amount \<le> 10000)"

fun violation_message :: "string \<Rightarrow> rule \<Rightarrow> string" where
  "violation_message step_name Amount_positive =
     step_name @ '': Amount must be greater than 0''"
| "violation_message step_name Concentration_positive =
     step_name @ '': Concentration must be greater than 0''"
| "violation_message step_name Concentration_below_100 =
     step_name @ '': Concentration must be less than 100%''"
| "violation_message step_name Final_below_stock =
     ''Final concentration should be lower than stock concentration''"
| "violation_message step_name Amount_within_bound =
     step_name @ '': Amount seems unreasonably large (>10000)''"

definition spec_validate :: "real \<Rightarrow> real \<Rightarrow> string \<Rightarrow> session_state \<Rightarrow> string list" where
  "spec_validate amount concentration step_name s =
     map (violation_message step_name)
       (filter (\<lambda>r. \<not> rule_holds r amount concentration step_name s) all_rules)"

subsection \<open>Consistency of the session\<close>

text \<open>
  What the session satisfies between runs. The stock concentration is a double. When step
  1 is complete, the stored stock record is the one computed from the current stock
  inputs, and these are valid; when step 2 is complete as well, the stored dilution is the
  one computed from the current inputs, and the stock suffices.
\<close>

definition is_float :: "pyval option \<Rightarrow> bool" where
  "is_float v = (case v of Some (Float x) \<Rightarrow> True | _ \<Rightarrow> False)"

definition session_consistent :: "session_state \<Rightarrow> bool" where
  "session_consistent s =
     (case stock_conc s of
        None \<Rightarrow> False
      | Some sc \<Rightarrow>
          is_double sc \<and>
          (if step1_completed s then
             0 < sc \<and> sc < 100 \<and> 0 < stock_amount s \<and> stock_amount s \<le> 10000 \<and>
             stock_calculations s ''stock_conc'' = Some (Float sc) \<and>
             stock_calculations s ''stock_amount'' = Some (Float (stock_amount s)) \<and>
             is_float (stock_calculations s ''emulsion_needed'') \<and>
             is_float (stock_calculations s ''water_needed'')
           else True) \<and>
          (if step2_completed s then
             step1_completed s \<and>
             (case stock_needed_double (final_conc s) (final_amount s) sc of
                None \<Rightarrow> False
              | Some sn \<Rightarrow>
                  dilution_calculations s ''stock_needed'' = Some (Float sn) \<and>
                  sn \<le> stock_amount s \<and>
                  (case water_needed_double (final_amount s) sn of
                     None \<Rightarrow> False
                   | Some wn \<Rightarrow> dilution_calculations s ''water_needed'' = Some (Float wn))) \<and>
             dilution_calculations s ''final_amount'' = Some (Float (final_amount s)) \<and>
             dilution_calculations s ''final_conc'' = Some (Float (final_conc s))
           else True))"

subsection \<open>Concrete sessions\<close>

text \<open>
  The widget values of a run in manual mode with weight units and no button pressed, and
  the world after the operator has entered all four numbers in a new session and pressed
  "Calculate Stock Solution".
\<close>

definition manual_widgets :: "real \<Rightarrow> real \<Rightarrow> real \<Rightarrow> real \<Rightarrow> widgets" where
  "manual_widgets stock_amount' stock_conc' final_amount' final_conc' =
     \<lparr>reset_button = False,
      new_mode = ''Manual Input'',
      new_unit_type = ''Weight (g) / % w/w'',
      selected_preset = ''1% Latex Stock (200 g)'',
      new_amount = stock_amount',
      new_conc = stock_conc',
      stock_button = False,
      new_final_amount = final_amount',
      new_final_conc = final_conc',
      final_button = False\<rparr>"

definition after_stock_solution :: "real \<Rightarrow> real \<Rightarrow> real \<Rightarrow> real \<Rightarrow> world" where
  "after_stock_solution stock_amount' stock_conc' final_amount' final_conc' =
     (case main_run
             ((manual_widgets stock_amount' stock_conc' final_amount' final_conc')
                \<lparr>stock_button := True\<rparr>)
             fresh_world of
        Inr w \<Rightarrow> w
      | Inl e \<Rightarrow> fresh_world)"


text \<open>The world after "Calculate Final Dilution" has then been pressed as well.\<close>

definition after_final_dilution :: "real \<Rightarrow> real \<Rightarrow> real \<Rightarrow> real \<Rightarrow> world" where
  "after_final_dilution stock_amount' stock_conc' final_amount' final_conc' =
     (case main_run
             ((manual_widgets stock_amount' stock_conc' final_amount' final_conc')
                \<lparr>final_button := True\<rparr>)
             (after_stock_solution stock_amount' stock_conc' final_amount' final_conc') of
        Inr w \<Rightarrow> w
      | Inl e \<Rightarrow> fresh_world)"

subsection \<open>Rounding to the nearest double\<close>

lemma rhe_mono: "x \<le> y \<Longrightarrow> round_half_even x \<le> round_half_even y"
proof -
  assume xy: "x \<le> y"
  have fl: "\<lfloor>x\<rfloor> \<le> \<lfloor>y\<rfloor>" using xy by (rule floor_mono)
  show ?thesis
  proof (cases "\<lfloor>x\<rfloor> = \<lfloor>y\<rfloor>")
    case True
    with xy show ?thesis
      by (auto simp add: round_half_even_def Let_def)
  next
    case False
    with fl have "\<lfloor>x\<rfloor> + 1 \<le> \<lfloor>y\<rfloor>" by simp
    moreover have "round_half_even x \<le> \<lfloor>x\<rfloor> + 1"
      by (simp add: round_half_even_def Let_def)
    moreover have "\<lfloor>y\<rfloor> \<le> round_half_even y"
      by (simp add: round_half_even_def Let_def)
    ultimately show ?thesis by linarith
  qed
qed

lemma rhe_of_int: "round_half_even (of_int n) = n"
  by (simp add: round_half_even_def)

lemma ulp_exponent_ge: "min_exponent \<le> ulp_exponent x"
  by (simp add: ulp_exponent_def)

lemma bitlen_mono: "a \<le> b \<Longrightarrow> bitlen a \<le> bitlen b"
  by (simp add: bitlen_def floorlog_mono)

lemma ulp_exponent_mono: "\<bar>x\<bar> \<le> \<bar>y\<bar> \<Longrightarrow> ulp_exponent x \<le> ulp_exponent y"
proof -
  assume "\<bar>x\<bar> \<le> \<bar>y\<bar>"
  then have "\<lfloor>\<bar>x\<bar> * 2 powi (- min_exponent)\<rfloor> \<le> \<lfloor>\<bar>y\<bar> * 2 powi (- min_exponent)\<rfloor>"
    by (intro floor_mono mult_right_mono) simp_all
  from bitlen_mono[OF this] show ?thesis
    by (simp add: ulp_exponent_def)
qed

lemma of_int_pow2: "0 \<le> k \<Longrightarrow> real_of_int (2 ^ nat k) = 2 powi k"
  by (simp add: power_int_def)

lemma scaled_less:
  "\<bar>x\<bar> * 2 powi (- m) < 2 powi (k - m) \<Longrightarrow> \<bar>x\<bar> < (2::real) powi k"
proof -
  assume a: "\<bar>x\<bar> * 2 powi (- m) < 2 powi (k - m)"
  have "(2::real) powi (k - m) = 2 powi k * 2 powi (- m)"
    by (simp add: power_int_diff power_int_minus divide_inverse)
  with a have "\<bar>x\<bar> * 2 powi (- m) < 2 powi k * 2 powi (- m)" by simp
  moreover have "(0::real) < 2 powi (- m)" by simp
  ultimately show ?thesis using mult_less_cancel_right_pos by blast
qed

lemma scaled_le:
  "2 powi (k - m) \<le> \<bar>x\<bar> * 2 powi (- m) \<Longrightarrow> (2::real) powi k \<le> \<bar>x\<bar>"
proof -
  assume a: "2 powi (k - m) \<le> \<bar>x\<bar> * 2 powi (- m)"
  have "(2::real) powi (k - m) = 2 powi k * 2 powi (- m)"
    by (simp add: power_int_diff power_int_minus divide_inverse)
  with a have "2 powi k * 2 powi (- m) \<le> \<bar>x\<bar> * 2 powi (- m)" by simp
  moreover have "(0::real) < 2 powi (- m)" by simp
  ultimately show ?thesis using mult_le_cancel_right_pos by blast
qed

lemma ulp_upper: "\<bar>x\<bar> < 2 powi (ulp_exponent x + 53)"
proof -
  let ?N = "\<lfloor>\<bar>x\<bar> * 2 powi (- min_exponent)\<rfloor>"
  let ?q = "ulp_exponent x"
  let ?k = "?q + 53 - min_exponent"
  have k: "0 \<le> ?k" using ulp_exponent_ge[of x] by simp
  have "bitlen ?N \<le> ?k" by (simp add: ulp_exponent_def)
  then have "?N < 2 ^ nat ?k" by (simp add: bitlen_le_iff_power)
  then have "?N + 1 \<le> 2 ^ nat ?k" by simp
  then have "real_of_int (?N + 1) \<le> real_of_int (2 ^ nat ?k)"
    by (rule of_int_le_iff[THEN iffD2])
  then have "real_of_int (?N + 1) \<le> 2 powi ?k" by (simp only: of_int_pow2[OF k])
  moreover have "\<bar>x\<bar> * 2 powi (- min_exponent) < real_of_int (?N + 1)" by linarith
  ultimately have "\<bar>x\<bar> * 2 powi (- min_exponent) < 2 powi ?k" by linarith
  then show ?thesis by (rule scaled_less)
qed

lemma ulp_lower:
  assumes "min_exponent < ulp_exponent x"
  shows "2 powi (ulp_exponent x + 52) \<le> \<bar>x\<bar>"
proof -
  let ?N = "\<lfloor>\<bar>x\<bar> * 2 powi (- min_exponent)\<rfloor>"
  let ?q = "ulp_exponent x"
  let ?k = "?q + 52 - min_exponent"
  have q: "?q = bitlen ?N - 53 + min_exponent"
    using assms by (simp add: ulp_exponent_def max_def split: if_splits)
  have k: "0 \<le> ?k" using assms by simp
  have "?k + 1 \<le> bitlen ?N" using q by simp
  then have "?k + 1 \<le> 0 \<or> 2 ^ (nat (?k + 1) - 1) \<le> ?N"
    by (simp only: bitlen_ge_iff_power)
  with k have "2 ^ (nat (?k + 1) - 1) \<le> ?N" by simp
  moreover have "nat (?k + 1) - 1 = nat ?k" using k by simp
  ultimately have "2 ^ nat ?k \<le> ?N" by simp
  then have "real_of_int (2 ^ nat ?k) \<le> real_of_int ?N"
    by (rule of_int_le_iff[THEN iffD2])
  then have "2 powi ?k \<le> real_of_int ?N" by (simp only: of_int_pow2[OF k])
  moreover have "real_of_int ?N \<le> \<bar>x\<bar> * 2 powi (- min_exponent)" by simp
  ultimately have "2 powi ?k \<le> \<bar>x\<bar> * 2 powi (- min_exponent)" by linarith
  then show ?thesis by (rule scaled_le)
qed

lemma ulp_exponent_eq:
  assumes "min_exponent \<le> q"
    and "q = min_exponent \<or> 2 powi (q + 52) \<le> \<bar>x\<bar>"
    and "\<bar>x\<bar> < 2 powi (q + 53)"
  shows "ulp_exponent x = q"
proof (rule antisym)
  show "ulp_exponent x \<le> q"
  proof (rule ccontr)
    assume "\<not> ulp_exponent x \<le> q"
    then have gt: "q + 1 \<le> ulp_exponent x" by simp
    with assms(1) have "min_exponent < ulp_exponent x" by simp
    from ulp_lower[OF this] have "2 powi (ulp_exponent x + 52) \<le> \<bar>x\<bar>" .
    moreover have "(2::real) powi (q + 53) \<le> 2 powi (ulp_exponent x + 52)"
      using gt by (intro power_int_increasing) simp_all
    ultimately show False using assms(3) by linarith
  qed
next
  show "q \<le> ulp_exponent x"
  proof (cases "q = min_exponent")
    case True
    then show ?thesis using ulp_exponent_ge[of x] by simp
  next
    case False
    with assms(2) have lo: "2 powi (q + 52) \<le> \<bar>x\<bar>" by simp
    show ?thesis
    proof (rule ccontr)
      assume "\<not> q \<le> ulp_exponent x"
      then have "ulp_exponent x + 53 \<le> q + 52" by simp
      then have "(2::real) powi (ulp_exponent x + 53) \<le> 2 powi (q + 52)"
        by (intro power_int_increasing) simp_all
      with ulp_upper[of x] lo show False by linarith
    qed
  qed
qed

lemma nearest_double_mono:
  assumes "0 \<le> x" and "x \<le> y"
  shows "nearest_double x \<le> nearest_double y"
proof -
  let ?q = "ulp_exponent x" and ?q' = "ulp_exponent y"
  have qq: "?q \<le> ?q'" using assms by (intro ulp_exponent_mono) simp
  show ?thesis
  proof (cases "?q = ?q'")
    case True
    have "x / 2 powi ?q \<le> y / 2 powi ?q" using assms(2) by (simp add: divide_right_mono)
    from rhe_mono[OF this] show ?thesis
      using True by (simp add: nearest_double_def Let_def mult_right_mono)
  next
    case False
    with qq have lt: "?q + 1 \<le> ?q'" by simp
    have "x < 2 powi (?q + 53)" using ulp_upper[of x] assms(1) by simp
    then have "x / 2 powi ?q \<le> 2 powi (?q + 53) / 2 powi ?q"
      by (intro divide_right_mono) simp_all
    also have "\<dots> = real_of_int (2 ^ 53)" by (simp add: power_int_add)
    finally have "round_half_even (x / 2 powi ?q) \<le> round_half_even (real_of_int (2 ^ 53))"
      by (rule rhe_mono)
    then have "round_half_even (x / 2 powi ?q) \<le> 2 ^ 53" by (simp only: rhe_of_int)
    then have "real_of_int (round_half_even (x / 2 powi ?q)) \<le> real_of_int (2 ^ 53)"
      by (rule of_int_le_iff[THEN iffD2])
    then have ub: "nearest_double x \<le> real_of_int (2 ^ 53) * 2 powi ?q"
      by (simp only: nearest_double_def Let_def) (intro mult_right_mono, simp_all)
    have "min_exponent < ?q'" using lt ulp_exponent_ge[of x] by simp
    from ulp_lower[OF this] have "2 powi (?q' + 52) \<le> y" using assms by simp
    then have "2 powi (?q' + 52) / 2 powi ?q' \<le> y / 2 powi ?q'"
      by (intro divide_right_mono) simp_all
    moreover have "(2::real) powi (?q' + 52) / 2 powi ?q' = real_of_int (2 ^ 52)"
      by (simp add: power_int_add)
    ultimately have "real_of_int (2 ^ 52) \<le> y / 2 powi ?q'" by simp
    then have "round_half_even (real_of_int (2 ^ 52)) \<le> round_half_even (y / 2 powi ?q')"
      by (rule rhe_mono)
    then have "2 ^ 52 \<le> round_half_even (y / 2 powi ?q')" by (simp only: rhe_of_int)
    then have "real_of_int (2 ^ 52) \<le> real_of_int (round_half_even (y / 2 powi ?q'))"
      by (rule of_int_le_iff[THEN iffD2])
    then have lb: "real_of_int (2 ^ 52) * 2 powi ?q' \<le> nearest_double y"
      by (simp only: nearest_double_def Let_def) (intro mult_right_mono, simp_all)
    have "(2::real) powi (?q + 53) \<le> 2 powi (?q' + 52)"
      using lt by (intro power_int_increasing) simp_all
    then have "real_of_int (2 ^ 53) * 2 powi ?q \<le> real_of_int (2 ^ 52) * 2 powi ?q'"
      by (simp add: power_int_add)
    with ub lb show ?thesis by linarith
  qed
qed


lemma nearest_double_eval:
  assumes "min_exponent \<le> q"
    and "q = min_exponent \<or> 2 powi (q + 52) \<le> \<bar>x\<bar>"
    and "\<bar>x\<bar> < 2 powi (q + 53)"
    and "round_half_even (x / 2 powi q) = n"
  shows "nearest_double x = of_int n * 2 powi q"
  using ulp_exponent_eq[OF assms(1-3)] assms(4) by (simp add: nearest_double_def)

lemma rhe_error: "\<bar>real_of_int (round_half_even x) - x\<bar> \<le> 1 / 2"
  by (simp add: round_half_even_def Let_def)

lemma nearest_double_zero: "nearest_double 0 = 0"
  by (simp add: nearest_double_def round_half_even_def)

lemma nearest_double_nonneg: "0 \<le> x \<Longrightarrow> 0 \<le> nearest_double x"
  using nearest_double_mono[of 0 x] by (simp add: nearest_double_zero)

lemma nearest_double_error: "\<bar>nearest_double x - x\<bar> \<le> 2 powi (ulp_exponent x) / 2"
proof -
  let ?P = "(2::real) powi (ulp_exponent x)"
  have P: "0 < ?P" by simp
  have "nearest_double x - x = (real_of_int (round_half_even (x / ?P)) - x / ?P) * ?P"
    using P by (simp add: nearest_double_def Let_def algebra_simps)
  then have "\<bar>nearest_double x - x\<bar> = \<bar>real_of_int (round_half_even (x / ?P)) - x / ?P\<bar> * ?P"
    using P by (simp add: abs_mult)
  also have "\<dots> \<le> 1 / 2 * ?P"
    using rhe_error[of "x / ?P"] P by (intro mult_right_mono) simp_all
  finally show ?thesis by simp
qed

lemma nearest_double_relative_error:
  assumes "min_exponent < ulp_exponent x"
  shows "\<bar>nearest_double x - x\<bar> \<le> \<bar>x\<bar> / 2 ^ 53"
proof -
  have "(2::real) powi (ulp_exponent x + 52) = 2 powi (ulp_exponent x) * 2 ^ 52"
    by (simp add: power_int_add)
  with ulp_lower[OF assms] have "2 powi (ulp_exponent x) * 2 ^ 52 \<le> \<bar>x\<bar>" by simp
  then have "2 powi (ulp_exponent x) / 2 \<le> \<bar>x\<bar> / 2 ^ 53" by simp
  with nearest_double_error[of x] show ?thesis by linarith
qed

lemma nearest_double_exact:
  assumes "x = real_of_int k * 2 powi (ulp_exponent x)"
  shows "nearest_double x = x"
proof -
  have "x / 2 powi (ulp_exponent x) = real_of_int k"
    using assms by (simp add: field_simps)
  then have "round_half_even (x / 2 powi (ulp_exponent x)) = k" by (simp add: rhe_of_int)
  with assms show ?thesis by (simp add: nearest_double_def Let_def)
qed

lemma nearest_double_multiple: "\<exists>k. nearest_double x = real_of_int k * 2 powi min_exponent"
proof -
  let ?q = "ulp_exponent x"
  have "0 \<le> ?q - min_exponent" using ulp_exponent_ge[of x] by simp
  then have "(2::real) powi (?q - min_exponent) = real_of_int (2 ^ nat (?q - min_exponent))"
    by (simp add: power_int_def)
  moreover have "(2::real) powi ?q = 2 powi (?q - min_exponent) * 2 powi min_exponent"
    by (simp flip: power_int_add)
  ultimately have "nearest_double x =
      real_of_int (round_half_even (x / 2 powi ?q) * 2 ^ nat (?q - min_exponent)) * 2 powi min_exponent"
    by (simp add: nearest_double_def Let_def)
  then show ?thesis by blast
qed

lemma is_double_nearest: "is_double x \<Longrightarrow> nearest_double x = x"
  by (simp add: is_double_def round_double_def Let_def split: if_splits)

lemma is_double_bound: "is_double x \<Longrightarrow> \<bar>x\<bar> < 2 powi 1024"
  by (simp add: is_double_def round_double_def Let_def split: if_splits)

lemma is_double_multiple: "is_double x \<Longrightarrow> \<exists>k. x = real_of_int k * 2 powi min_exponent"
  using nearest_double_multiple[of x] by (simp add: is_double_nearest)

lemma nearest_double_one: "nearest_double 1 = 1"
proof -
  have "nearest_double 1 = of_int (2 ^ 52) * 2 powi (- 52)"
    by (rule nearest_double_eval)
       (simp_all add: min_exponent_def round_half_even_def power_int_minus)
  then show ?thesis by (simp add: power_int_minus)
qed

lemma is_double_one: "is_double 1"
  by (simp add: is_double_def round_double_def Let_def nearest_double_one)

lemma round_double_bounded:
  assumes "0 \<le> x" and "x \<le> y" and "is_double y"
  shows "round_double x = Some (nearest_double x)" and "nearest_double x \<le> y"
proof -
  have le: "nearest_double x \<le> nearest_double y" using assms(1,2) by (rule nearest_double_mono)
  then show "nearest_double x \<le> y" using is_double_nearest[OF assms(3)] by simp
  moreover have "0 \<le> nearest_double x" using assms(1) by (rule nearest_double_nonneg)
  ultimately have "\<bar>nearest_double x\<bar> < 2 powi 1024"
    using is_double_bound[OF assms(3)] by linarith
  then show "round_double x = Some (nearest_double x)"
    by (simp add: round_double_def Let_def)
qed

lemma difference_of_multiples:
  assumes "a = real_of_int k * 2 powi min_exponent" and "b = real_of_int l * 2 powi min_exponent"
  shows "\<bar>nearest_double (a - b) - (a - b)\<bar> \<le> \<bar>a - b\<bar> / 2 ^ 53"
proof (cases "min_exponent < ulp_exponent (a - b)")
  case True
  then show ?thesis by (rule nearest_double_relative_error)
next
  case False
  then have q: "ulp_exponent (a - b) = min_exponent" using ulp_exponent_ge[of "a - b"] by simp
  have "a - b = real_of_int (k - l) * 2 powi (ulp_exponent (a - b))"
    using assms q by (simp add: algebra_simps)
  from nearest_double_exact[OF this] show ?thesis by simp
qed


lemma stock_needed_double_mono:
  assumes "0 < stock_conc'" and "0 \<le> final_amount'" and "0 \<le> c1" and "c1 \<le> c2"
    and "stock_needed_double c1 final_amount' stock_conc' = Some s1"
    and "stock_needed_double c2 final_amount' stock_conc' = Some s2"
  shows "s1 \<le> s2"
proof -
  let ?p1 = "nearest_double (c1 * final_amount')" and ?p2 = "nearest_double (c2 * final_amount')"
  have m: "0 \<le> c1 * final_amount'" "c1 * final_amount' \<le> c2 * final_amount'"
    using assms(2,3,4) by (simp_all add: mult_right_mono)
  have p: "0 \<le> ?p1" "?p1 \<le> ?p2"
    using m by (simp_all add: nearest_double_nonneg nearest_double_mono)
  have "0 \<le> ?p1 / stock_conc'" "?p1 / stock_conc' \<le> ?p2 / stock_conc'"
    using p assms(1) by (simp_all add: divide_right_mono)
  then have "nearest_double (?p1 / stock_conc') \<le> nearest_double (?p2 / stock_conc')"
    by (rule nearest_double_mono)
  moreover have "s1 = nearest_double (?p1 / stock_conc')"
    using assms(5)
    by (auto simp add: stock_needed_double_def round_double_def Let_def split: option.splits if_splits)
  moreover have "s2 = nearest_double (?p2 / stock_conc')"
    using assms(6)
    by (auto simp add: stock_needed_double_def round_double_def Let_def split: option.splits if_splits)
  ultimately show ?thesis by simp
qed

lemma round_double_eval:
  assumes "min_exponent \<le> q"
    and "q = min_exponent \<or> 2 powi (q + 52) \<le> \<bar>x\<bar>"
    and "\<bar>x\<bar> < 2 powi (q + 53)"
    and "round_half_even (x / 2 powi q) = n"
    and "\<bar>real_of_int n * 2 powi q\<bar> < 2 powi 1024"
  shows "round_double x = Some (of_int n * 2 powi q)"
  using nearest_double_eval[OF assms(1-4)] assms(5) by (simp add: round_double_def)

lemma stock_needed_double_eval:
  "round_double (c * fa) = Some p \<Longrightarrow> round_double (p / sc) = Some r \<Longrightarrow>
   stock_needed_double c fa sc = Some r"
  by (simp add: stock_needed_double_def)


lemma is_double_normal:
  assumes "min_exponent \<le> q" and "2 ^ 52 \<le> \<bar>n\<bar>" and "\<bar>n\<bar> < 2 ^ 53" and "q + 53 \<le> 1024"
  shows "is_double (real_of_int n * 2 powi q)"
proof -
  let ?x = "real_of_int n * 2 powi q"
  have a: "\<bar>?x\<bar> = real_of_int \<bar>n\<bar> * 2 powi q" by (simp add: abs_mult)
  have "real_of_int (2 ^ 52) \<le> real_of_int \<bar>n\<bar>" using assms(2) by (rule of_int_le_iff[THEN iffD2])
  then have lo: "2 powi (q + 52) \<le> \<bar>?x\<bar>"
    unfolding a by (simp add: power_int_add mult.commute mult_left_mono)
  have "real_of_int \<bar>n\<bar> < real_of_int (2 ^ 53)" using assms(3) by (rule of_int_less_iff[THEN iffD2])
  then have hi: "\<bar>?x\<bar> < 2 powi (q + 53)"
    unfolding a by (simp add: power_int_add mult.commute)
  have r: "round_half_even (?x / 2 powi q) = n" by (simp add: rhe_of_int)
  have "(2::real) powi (q + 53) \<le> 2 powi 1024"
    using assms(4) by (intro power_int_increasing) simp_all
  with hi have "\<bar>real_of_int n * 2 powi q\<bar> < 2 powi 1024" by linarith
  from round_double_eval[OF assms(1) _ hi r this] lo show ?thesis
    by (simp add: is_double_def)
qed

text \<open>
  The split in double precision: for doubles within the validated range the three
  operations neither overflow nor leave the interval from 0 to the amount, and the two
  parts add up to the amount within half a unit in the last place of the solvent.
\<close>

lemma calculate_solution_double_value:
  assumes "is_double amount" and "is_double concentration"
    and "0 < amount" and "0 < concentration" and "concentration < 100"
    and "s = nearest_double (amount * nearest_double (concentration / 100))"
    and "v = nearest_double (amount - s)"
  shows "calculate_solution_double amount concentration = Some (s, v)"
    and "0 \<le> s" and "s \<le> amount" and "0 \<le> v" and "v \<le> amount"
    and "\<bar>v - (amount - s)\<bar> \<le> \<bar>amount - s\<bar> / 2 ^ 53"
    and "\<bar>s + v - amount\<bar> \<le> \<bar>amount\<bar> / 10 ^ 9"
proof -
  let ?f = "nearest_double (concentration / 100)"
  have c1: "0 \<le> concentration / 100" "concentration / 100 \<le> 1" using assms(4,5) by simp_all
  from round_double_bounded[OF c1 is_double_one]
  have f: "round_double (concentration / 100) = Some ?f" and f1: "?f \<le> 1" by simp_all
  have f0: "0 \<le> ?f" using c1(1) by (rule nearest_double_nonneg)
  have p: "0 \<le> amount * ?f" "amount * ?f \<le> amount"
    using assms(3) f0 f1 by (simp_all add: mult_left_le)
  from round_double_bounded[OF p assms(1)]
  have s: "round_double (amount * ?f) = Some s" and s1: "s \<le> amount"
    unfolding assms(6) by simp_all
  have s0: "0 \<le> s" unfolding assms(6) using p(1) by (rule nearest_double_nonneg)
  have d: "0 \<le> amount - s" "amount - s \<le> amount" using s0 s1 by simp_all
  from round_double_bounded[OF d assms(1)]
  have w: "round_double (amount - s) = Some v" and w1: "v \<le> amount"
    unfolding assms(7) by simp_all
  have w0: "0 \<le> v" unfolding assms(7) using d(1) by (rule nearest_double_nonneg)
  obtain k where k: "amount = real_of_int k * 2 powi min_exponent"
    using is_double_multiple[OF assms(1)] by blast
  obtain l where l: "s = real_of_int l * 2 powi min_exponent"
    unfolding assms(6) using nearest_double_multiple by blast
  from difference_of_multiples[OF k l]
  have e: "\<bar>v - (amount - s)\<bar> \<le> \<bar>amount - s\<bar> / 2 ^ 53" unfolding assms(7) .
  also have "\<dots> \<le> amount / 2 ^ 53" using d by (simp add: divide_right_mono)
  also have "\<dots> \<le> amount / 10 ^ 9" using assms(3) by (intro divide_left_mono) simp_all
  finally show "\<bar>s + v - amount\<bar> \<le> \<bar>amount\<bar> / 10 ^ 9"
    using assms(3) by (simp add: algebra_simps)
  show "calculate_solution_double amount concentration = Some (s, v)"
    using f s w by (simp add: calculate_solution_double_def)
  show "0 \<le> s" "s \<le> amount" "0 \<le> v" "v \<le> amount" by (fact s0 s1 w0 w1)+
  show "\<bar>v - (amount - s)\<bar> \<le> \<bar>amount - s\<bar> / 2 ^ 53" by (fact e)
qed


lemma rhe_minus: "round_half_even (- x) = - round_half_even x"
proof (cases "x = of_int \<lfloor>x\<rfloor>")
  case True
  then obtain n where "x = of_int n" by blast
  then show ?thesis by (simp add: rhe_of_int flip: of_int_minus)
next
  case False
  then have fl: "\<lfloor>- x\<rfloor> = - \<lfloor>x\<rfloor> - 1"
    by (simp add: floor_minus ceiling_altdef)
  have "of_int \<lfloor>x\<rfloor> \<le> x" by (rule of_int_floor_le)
  with False have "of_int \<lfloor>x\<rfloor> < x" by (auto simp add: less_le)
  then have r: "0 < x - of_int \<lfloor>x\<rfloor>" by simp
  show ?thesis
    using r by (auto simp add: round_half_even_def Let_def fl)
qed

lemma ulp_exponent_minus: "ulp_exponent (- x) = ulp_exponent x"
  by (simp add: ulp_exponent_def)

lemma nearest_double_minus: "nearest_double (- x) = - nearest_double x"
  by (simp add: nearest_double_def Let_def ulp_exponent_minus rhe_minus)

lemma round_double_abs_bounded:
  assumes "\<bar>x\<bar> \<le> y" and "is_double y"
  shows "round_double x = Some (nearest_double x)" and "\<bar>nearest_double x\<bar> \<le> y"
proof -
  have a: "\<bar>nearest_double x\<bar> = nearest_double \<bar>x\<bar>"
  proof (cases "0 \<le> x")
    case True
    then show ?thesis using nearest_double_nonneg[of x] by simp
  next
    case False
    then have "0 \<le> - x" by simp
    from nearest_double_nonneg[OF this] False show ?thesis
      by (simp add: nearest_double_minus abs_if)
  qed
  have "0 \<le> \<bar>x\<bar>" by simp
  from round_double_bounded(2)[OF this assms] a
  show b: "\<bar>nearest_double x\<bar> \<le> y" by simp
  with is_double_bound[OF assms(2)] have "\<bar>nearest_double x\<bar> < 2 powi 1024" by linarith
  then show "round_double x = Some (nearest_double x)" by (simp add: round_double_def Let_def)
qed

lemma nearest_double_error_bound:
  "\<bar>nearest_double x - x\<bar> \<le> \<bar>x\<bar> / 2 ^ 53 + 2 powi min_exponent / 2"
proof (cases "min_exponent < ulp_exponent x")
  case True
  have "0 \<le> (2::real) powi min_exponent / 2" by simp
  with nearest_double_relative_error[OF True] show ?thesis by linarith
next
  case False
  then have "ulp_exponent x = min_exponent" using ulp_exponent_ge[of x] by simp
  with nearest_double_error[of x] have "\<bar>nearest_double x - x\<bar> \<le> 2 powi min_exponent / 2" by simp
  moreover have "0 \<le> \<bar>x\<bar> / 2 ^ 53" by simp
  ultimately show ?thesis by linarith
qed

lemma is_double_pos_ge:
  assumes "is_double x" and "0 < x"
  shows "2 powi min_exponent \<le> x"
proof -
  obtain k where k: "x = real_of_int k * 2 powi min_exponent"
    using is_double_multiple[OF assms(1)] by blast
  have P: "(0::real) < 2 powi min_exponent" by simp
  have "0 < real_of_int k" using assms(2) k P by (simp add: zero_less_mult_iff)
  then have "1 \<le> k" by simp
  then have "1 \<le> real_of_int k" by simp
  then have "1 * 2 powi min_exponent \<le> real_of_int k * 2 powi min_exponent"
    using P by (intro mult_right_mono) simp_all
  with k show ?thesis by simp
qed

lemma is_double_16384: "is_double 16384"
  using is_double_normal[of "- 38" 4503599627370496] by (simp add: min_exponent_def power_int_minus)

lemma is_double_million: "is_double 1000000"
  using is_double_normal[of "- 33" 8589934592000000] by (simp add: min_exponent_def power_int_minus)

lemma dilution_finite:
  assumes "0 < fc" and "fc < 100" and "fc < sc" and "0 < fa" and "fa \<le> 10000" and "is_double sc"
  shows "\<exists>sn wn. stock_needed_double fc fa sc = Some sn \<and> water_needed_double fa sn = Some wn"
proof -
  let ?P = "(2::real) powi min_exponent"
  let ?p = "nearest_double (fc * fa)"
  have sc0: "0 < sc" using assms(1,3) by simp
  have x1: "0 \<le> fc * fa" "fc * fa \<le> 1000000"
  proof -
    show "0 \<le> fc * fa" using assms(1,4) by simp
    have "fc * fa \<le> 100 * 10000" using assms(1,2,4,5) by (intro mult_mono) simp_all
    then show "fc * fa \<le> 1000000" by simp
  qed
  from round_double_bounded[OF x1 is_double_million]
  have p: "round_double (fc * fa) = Some ?p" by simp
  have p0: "0 \<le> ?p" using x1(1) by (rule nearest_double_nonneg)
  have "\<bar>fc * fa\<bar> = fc * fa" using x1(1) by (rule abs_of_nonneg)
  with nearest_double_error_bound[of "fc * fa"]
  have "\<bar>?p - fc * fa\<bar> \<le> fc * fa / 2 ^ 53 + ?P / 2" by (simp only:)
  then have "?p \<le> fc * fa + (fc * fa / 2 ^ 53 + ?P / 2)" by linarith
  then have "?p / sc \<le> (fc * fa + (fc * fa / 2 ^ 53 + ?P / 2)) / sc"
    using sc0 by (simp add: divide_right_mono)
  also have "\<dots> = (fc / sc) * fa * (1 + 1 / 2 ^ 53) + (?P / sc) / 2"
    using sc0 by (simp add: field_simps)
  finally have le: "?p / sc \<le> (fc / sc) * fa * (1 + 1 / 2 ^ 53) + (?P / sc) / 2" .
  define A where "A = (fc / sc) * fa"
  define B where "B = ?P / sc"
  have a: "fc / sc \<le> 1" "0 \<le> fc / sc" using assms(1,3) sc0 by simp_all
  have B1: "B \<le> 1" unfolding B_def using is_double_pos_ge[OF assms(6) sc0] sc0 by simp
  have "(fc / sc) * fa \<le> 1 * 10000" using a assms(4,5) by (intro mult_mono) simp_all
  then have A1: "A \<le> 10000" by (simp add: A_def)
  have "A * (1 + 1 / 2 ^ 53) \<le> 10000 * (1 + 1 / 2 ^ 53)"
    using A1 by (intro mult_right_mono) simp_all
  then have "A * (1 + 1 / 2 ^ 53) + B / 2 \<le> 16384" using B1 by simp
  with le have x2: "?p / sc \<le> 16384" by (simp add: A_def B_def)
  have x20: "0 \<le> ?p / sc" using p0 sc0 by simp
  let ?sn = "nearest_double (?p / sc)"
  from round_double_bounded[OF x20 x2 is_double_16384]
  have sn: "round_double (?p / sc) = Some ?sn" and sn1: "?sn \<le> 16384" by simp_all
  have sn0: "0 \<le> ?sn" using x20 by (rule nearest_double_nonneg)
  have "\<bar>fa - ?sn\<bar> \<le> 16384" using sn0 sn1 assms(4,5) by (simp add: abs_le_iff)
  from round_double_abs_bounded(1)[OF this is_double_16384]
  have "water_needed_double fa ?sn = Some (nearest_double (fa - ?sn))"
    by (simp add: water_needed_double_def)
  with p sn show ?thesis by (simp add: stock_needed_double_def)
qed

text \<open>
  The solute in double precision against the exact product: two roundings, each within
  half a unit in the last place.
\<close>

lemma solute_double_error:
  assumes "0 < amount" and "0 < concentration"
  shows "\<bar>nearest_double (amount * nearest_double (concentration / 100))
            - amount * concentration / 100\<bar>
         \<le> amount * concentration / 100 / 2 ^ 51 + (amount + 1) * 2 powi min_exponent"
proof -
  define e where "e = concentration / 100"
  define f where "f = nearest_double e"
  define m :: real where "m = 2 powi min_exponent"
  define E where "E = amount * e"
  define M where "M = amount * m"
  define F where "F = amount * f"
  have e0: "0 < e" using assms(2) by (simp add: e_def)
  have m0: "0 < m" by (simp add: m_def)
  have E0: "0 < E" using assms(1) e0 by (simp add: E_def)
  have M0: "0 < M" using assms(1) m0 by (simp add: M_def)
  have f0: "0 \<le> f" unfolding f_def using e0 by (intro nearest_double_nonneg) simp
  have F0: "0 \<le> F" using assms(1) f0 by (simp add: F_def)
  have "\<bar>f - e\<bar> \<le> \<bar>e\<bar> / 2 ^ 53 + m / 2"
    unfolding f_def m_def by (rule nearest_double_error_bound)
  then have fe: "\<bar>f - e\<bar> \<le> e / 2 ^ 53 + m / 2" using e0 by simp
  have "amount * \<bar>f - e\<bar> \<le> amount * (e / 2 ^ 53 + m / 2)"
    using fe assms(1) by (intro mult_left_mono) simp_all
  moreover have "amount * \<bar>f - e\<bar> = \<bar>F - E\<bar>"
    using assms(1) by (simp add: F_def E_def abs_mult flip: right_diff_distrib)
  moreover have "amount * (e / 2 ^ 53 + m / 2) = E / 2 ^ 53 + M / 2"
    by (simp add: E_def M_def algebra_simps)
  ultimately have FE: "\<bar>F - E\<bar> \<le> E / 2 ^ 53 + M / 2" by simp
  have "\<bar>nearest_double F - F\<bar> \<le> \<bar>F\<bar> / 2 ^ 53 + m / 2"
    unfolding m_def by (rule nearest_double_error_bound)
  then have sF: "\<bar>nearest_double F - F\<bar> \<le> F / 2 ^ 53 + m / 2" using F0 by simp
  have Fle: "F \<le> E + E / 2 ^ 53 + M / 2" using FE by linarith
  then have "F / 2 ^ 53 \<le> (E + E / 2 ^ 53 + M / 2) / 2 ^ 53"
    by (intro divide_right_mono) simp_all
  with sF FE have "\<bar>nearest_double F - E\<bar>
      \<le> (E + E / 2 ^ 53 + M / 2) / 2 ^ 53 + m / 2 + E / 2 ^ 53 + M / 2"
    by linarith
  also have "\<dots> \<le> E / 2 ^ 51 + (M + m)"
    using E0 M0 m0 by (simp add: field_simps)
  finally have "\<bar>nearest_double F - E\<bar> \<le> E / 2 ^ 51 + (M + m)" .
  moreover have "M + m = (amount + 1) * m" by (simp add: M_def algebra_simps)
  moreover have "E = amount * concentration / 100" by (simp add: E_def e_def)
  ultimately show ?thesis by (simp add: F_def f_def e_def m_def)
qed

subsection \<open>The doubles of the scenarios\<close>

lemma is_double_200: "is_double 200"
  using is_double_normal[of "- 45" 7036874417766400] by (simp add: min_exponent_def power_int_minus)

lemma is_double_100: "is_double 100"
  using is_double_normal[of "- 46" 7036874417766400] by (simp add: min_exponent_def power_int_minus)

lemma is_double_3: "is_double 3"
  using is_double_normal[of "- 51" 6755399441055744] by (simp add: min_exponent_def power_int_minus)

lemma calculate_solution_double_scenario1: "calculate_solution_double 200 1 = Some (2, 198)"
proof -
  have f: "round_double (1 / 100) = Some (of_int 5764607523034235 * 2 powi (- 59))"
    by (rule round_double_eval)
       (simp_all add: min_exponent_def round_half_even_def power_int_minus)
  have s: "round_double (200 * (of_int 5764607523034235 * 2 powi (- 59))) = Some 2"
    using round_double_eval[of "- 51" "200 * (of_int 5764607523034235 * 2 powi (- 59))" 4503599627370496]
    by (simp add: min_exponent_def round_half_even_def power_int_minus)
  have w: "round_double (200 - 2) = Some 198"
    using round_double_eval[of "- 45" "200 - 2" 6966505673588736]
    by (simp add: min_exponent_def round_half_even_def power_int_minus)
  show ?thesis
    unfolding calculate_solution_double_def by (simp only: f s w option.case)
qed

text \<open>
  The double nearest to 0.1 is \<open>double_of 7205759403792794 (- 56)\<close>, the one nearest to 0.2
  is twice that. With a stock at 1 percent and a final amount of 200 the stock needed is
  exactly 20 and 40 in double precision too.
\<close>

lemma stock_needed_double_tenth:
  "stock_needed_double (double_of 7205759403792794 (- 56)) 200 1 = Some 20"
proof (rule stock_needed_double_eval)
  show "round_double (double_of 7205759403792794 (- 56) * 200) = Some 20"
    using round_double_eval[of "- 48" "double_of 7205759403792794 (- 56) * 200" 5629499534213120]
    by (simp add: double_of_def min_exponent_def round_half_even_def power_int_minus)
  show "round_double (20 / 1) = Some 20"
    using round_double_eval[of "- 48" "20 / 1" 5629499534213120]
    by (simp add: min_exponent_def round_half_even_def power_int_minus)
qed

lemma stock_needed_double_fifth:
  "stock_needed_double (double_of 7205759403792794 (- 55)) 200 1 = Some 40"
proof (rule stock_needed_double_eval)
  show "round_double (double_of 7205759403792794 (- 55) * 200) = Some 40"
    using round_double_eval[of "- 47" "double_of 7205759403792794 (- 55) * 200" 5629499534213120]
    by (simp add: double_of_def min_exponent_def round_half_even_def power_int_minus)
  show "round_double (40 / 1) = Some 40"
    using round_double_eval[of "- 47" "40 / 1" 5629499534213120]
    by (simp add: min_exponent_def round_half_even_def power_int_minus)
qed

text \<open>
  Two neighbouring doubles just above 1.5, as final concentrations for a final amount of
  100 from a stock at 3 percent: the products round to the same double.
\<close>

lemma stock_needed_double_neighbour1:
  "stock_needed_double (double_of 6755399441055746 (- 52)) 100 3
     = Some (double_of 7036874417766403 (- 47))"
proof (rule stock_needed_double_eval)
  show "round_double (double_of 6755399441055746 (- 52) * 100)
          = Some (double_of 5277655813324802 (- 45))"
    unfolding double_of_def
    by (rule round_double_eval)
       (simp_all add: min_exponent_def round_half_even_def power_int_minus)
  show "round_double (double_of 5277655813324802 (- 45) / 3)
          = Some (double_of 7036874417766403 (- 47))"
    unfolding double_of_def
    by (rule round_double_eval)
       (simp_all add: min_exponent_def round_half_even_def power_int_minus)
qed

lemma stock_needed_double_neighbour2:
  "stock_needed_double (double_of 6755399441055747 (- 52)) 100 3
     = Some (double_of 7036874417766403 (- 47))"
proof (rule stock_needed_double_eval)
  show "round_double (double_of 6755399441055747 (- 52) * 100)
          = Some (double_of 5277655813324802 (- 45))"
    unfolding double_of_def
    by (rule round_double_eval)
       (simp_all add: min_exponent_def round_half_even_def power_int_minus)
  show "round_double (double_of 5277655813324802 (- 45) / 3)
          = Some (double_of 7036874417766403 (- 47))"
    unfolding double_of_def
    by (rule round_double_eval)
       (simp_all add: min_exponent_def round_half_even_def power_int_minus)
qed

lemma is_double_neighbours:
  "is_double (double_of 6755399441055746 (- 52))" "is_double (double_of 6755399441055747 (- 52))"
  unfolding double_of_def
  using is_double_normal[of "- 52" 6755399441055746] is_double_normal[of "- 52" 6755399441055747]
  by (simp_all add: min_exponent_def)

lemma stock_needed_strictly_increasing_exact:
  assumes "0 < stock_conc'" and "0 < final_amount'" and "0 < c1" and "c1 < c2"
  shows "stock_needed c1 final_amount' stock_conc' < stock_needed c2 final_amount' stock_conc'"
  using assms by (simp add: stock_needed_def divide_strict_right_mono)

text \<open>
  The doubles of the other scenarios: the final dilution of 250 at 0.1 percent from a stock
  at 1 percent, and the waters of the dilutions.
\<close>

lemma tenth_bounds:
  "0 < double_of 7205759403792794 (- 56)" "\<not> double_of 7205759403792794 (- 56) \<le> 0"
  "double_of 7205759403792794 (- 56) < 1" "\<not> 1 \<le> double_of 7205759403792794 (- 56)"
  "double_of 7205759403792794 (- 56) < 100" "\<not> 100 \<le> double_of 7205759403792794 (- 56)"
  "double_of 7205759403792794 (- 56) \<noteq> 2" "2 \<noteq> double_of 7205759403792794 (- 56)"
  by (simp_all add: double_of_def)

lemma is_double_20: "is_double 20"
  using is_double_normal[of "- 48" 5629499534213120] by (simp add: min_exponent_def power_int_minus)

lemma is_double_250: "is_double 250"
  using is_double_normal[of "- 45" 8796093022208000] by (simp add: min_exponent_def power_int_minus)

lemma is_double_2: "is_double 2"
  using is_double_normal[of "- 51" 4503599627370496] by (simp add: min_exponent_def power_int_minus)

lemma is_double_50: "is_double 50"
  using is_double_normal[of "- 47" 7036874417766400] by (simp add: min_exponent_def power_int_minus)

lemma is_double_7_2: "is_double (7 / 2)"
  using is_double_normal[of "- 51" 7881299347898368] by (simp add: min_exponent_def power_int_minus)

lemma is_double_7_4: "is_double (7 / 4)"
  using is_double_normal[of "- 52" 7881299347898368] by (simp add: min_exponent_def power_int_minus)

lemma stock_needed_double_scenario5:
  "stock_needed_double (double_of 7205759403792794 (- 56)) 250 1 = Some 25"
proof (rule stock_needed_double_eval)
  show "round_double (double_of 7205759403792794 (- 56) * 250) = Some 25"
    using round_double_eval[of "- 48" "double_of 7205759403792794 (- 56) * 250" 7036874417766400]
    by (simp add: double_of_def min_exponent_def round_half_even_def power_int_minus)
  show "round_double (25 / 1) = Some 25"
    using round_double_eval[of "- 48" "25 / 1" 7036874417766400]
    by (simp add: min_exponent_def round_half_even_def power_int_minus)
qed

lemma water_needed_double_scenario2: "water_needed_double 200 20 = Some 180"
  unfolding water_needed_double_def
  using round_double_eval[of "- 45" "200 - 20" 6333186975989760]
  by (simp add: min_exponent_def round_half_even_def power_int_minus)

lemma water_needed_double_scenario5: "water_needed_double 250 25 = Some 225"
  unfolding water_needed_double_def
  using round_double_eval[of "- 45" "250 - 25" 7916483719987200]
  by (simp add: min_exponent_def round_half_even_def power_int_minus)

text \<open>
  Rounding decides. For 6 at the double nearest to 0.05 percent from a stock at the double
  nearest to 0.1 percent, the exact quotient is 3, and Python computes
  \<open>3.0000000000000004\<close>: the product \<open>0.05 * 6\<close> rounds up.
\<close>

lemma stock_needed_double_rounds_up:
  "stock_needed_double (double_of 7205759403792794 (- 57)) 6 (double_of 7205759403792794 (- 56))
     = Some (double_of 6755399441055745 (- 51))"
proof (rule stock_needed_double_eval)
  show "round_double (double_of 7205759403792794 (- 57) * 6)
          = Some (double_of 5404319552844596 (- 54))"
    unfolding double_of_def
    by (rule round_double_eval)
       (simp_all add: min_exponent_def round_half_even_def power_int_minus)
  show "round_double (double_of 5404319552844596 (- 54) / double_of 7205759403792794 (- 56))
          = Some (double_of 6755399441055745 (- 51))"
    unfolding double_of_def
    by (rule round_double_eval)
       (simp_all add: min_exponent_def round_half_even_def power_int_minus)
qed

lemma stock_needed_exact_three:
  "stock_needed (double_of 7205759403792794 (- 57)) 6 (double_of 7205759403792794 (- 56)) = 3 \<and>
   3 < double_of 6755399441055745 (- 51)"
  by (simp add: stock_needed_def double_of_def power_int_minus)

text \<open>
  The split of 50 at 3.5 percent in double precision: the fraction is the double nearest
  to 0.035, and the solute is \<open>1.7500000000000002\<close>.
\<close>

lemma calculate_solution_double_50:
  "calculate_solution_double 50 (7 / 2) = Some (double_of 7881299347898369 (- 52), 193 / 4)"
proof -
  have f: "round_double (7 / 2 / 100) = Some (of_int 5044031582654956 * 2 powi (- 57))"
    by (rule round_double_eval)
       (simp_all add: min_exponent_def round_half_even_def power_int_minus)
  have s: "round_double (50 * (of_int 5044031582654956 * 2 powi (- 57)))
             = Some (double_of 7881299347898369 (- 52))"
    unfolding double_of_def
    by (rule round_double_eval)
       (simp_all add: min_exponent_def round_half_even_def power_int_minus)
  have w: "round_double (50 - double_of 7881299347898369 (- 52)) = Some (193 / 4)"
    using round_double_eval[of "- 47" "50 - double_of 7881299347898369 (- 52)" 6790583813144576]
    by (simp add: double_of_def min_exponent_def round_half_even_def power_int_minus)
  show ?thesis
    unfolding calculate_solution_double_def by (simp only: f s w option.case)
qed

lemma is_double_175: "is_double 175"
  using is_double_normal[of "- 45" 6157265115545600] by (simp add: min_exponent_def power_int_minus)

lemma stock_needed_double_2500:
  "stock_needed_double (double_of 7205759403792794 (- 56)) 2500 1 = Some 250"
proof (rule stock_needed_double_eval)
  show "round_double (double_of 7205759403792794 (- 56) * 2500) = Some 250"
    using round_double_eval[of "- 45" "double_of 7205759403792794 (- 56) * 2500" 8796093022208000]
    by (simp add: double_of_def min_exponent_def round_half_even_def power_int_minus)
  show "round_double (250 / 1) = Some 250"
    using round_double_eval[of "- 45" "250 / 1" 8796093022208000]
    by (simp add: min_exponent_def round_half_even_def power_int_minus)
qed

lemma water_needed_double_2500: "water_needed_double 2500 250 = Some 2250"
  unfolding water_needed_double_def
  using round_double_eval[of "- 41" "2500 - 250" 4947802324992000]
  by (simp add: min_exponent_def round_half_even_def power_int_minus)

lemma water_needed_double_rounds_up:
  "water_needed_double 6 (double_of 6755399441055745 (- 51))
     = Some (double_of 6755399441055743 (- 51))"
  unfolding water_needed_double_def double_of_def
  by (rule round_double_eval)
     (simp_all add: min_exponent_def round_half_even_def power_int_minus)

lemma twentieth_bounds:
  "0 < double_of 7205759403792794 (- 57)" "\<not> double_of 7205759403792794 (- 57) \<le> 0"
  "double_of 7205759403792794 (- 57) < 100" "\<not> 100 \<le> double_of 7205759403792794 (- 57)"
  "double_of 7205759403792794 (- 57) < double_of 7205759403792794 (- 56)"
  "\<not> double_of 7205759403792794 (- 56) \<le> double_of 7205759403792794 (- 57)"
  "double_of 7205759403792794 (- 56) \<noteq> 0"
  "3 < double_of 6755399441055745 (- 51)" "\<not> double_of 6755399441055745 (- 51) \<le> 3"
  by (simp_all add: double_of_def power_int_minus)

subsection \<open>The handlers in closed form\<close>

lemma show_errors_eq: "show_errors errors w = w\<lparr>events := events w @ map St_error errors\<rparr>"
  unfolding show_errors_def
  by (induction errors arbitrary: w) (simp_all add: emit_def)

lemma validate_stock_nil:
  "validate_inputs amount c ''Stock Solution'' s = [] \<longleftrightarrow> 0 < amount \<and> amount \<le> 10000 \<and> 0 < c \<and> c < 100"
  by (auto simp add: validate_inputs_def Let_def)

lemma validate_final_nil:
  "stock_conc s = Some sc \<Longrightarrow>
   validate_inputs amount c ''Final Dilution'' s = [] \<longleftrightarrow> 0 < amount \<and> amount \<le> 10000 \<and> 0 < c \<and> c < 100 \<and> c < sc"
  by (auto simp add: validate_inputs_def Let_def)

lemma calculate_solution_session: "session (snd (calculate_solution a c w)) = session w"
  by (simp add: calculate_solution_def calculate_solution_try_def emit_def Let_def)

lemma final_button_rejected:
  assumes "validate_inputs (final_amount (session w)) (final_conc (session w)) ''Final Dilution'' (session w) \<noteq> []"
  shows "calculate_final_dilution_button w =
           Inr (w\<lparr>session := (session w)\<lparr>step2_completed := False\<rparr>,
                  events := events w @ map St_error
                    (validate_inputs (final_amount (session w)) (final_conc (session w))
                       ''Final Dilution'' (session w))\<rparr>)"
  using assms
  by (simp add: calculate_final_dilution_button_def Let_def update_session_def show_errors_eq)

lemma final_button_computed:
  assumes "validate_inputs (final_amount (session w)) (final_conc (session w)) ''Final Dilution'' (session w) = []"
    and "get_float (stock_calculations (session w)) ''stock_conc'' = Inr sc"
    and "sc \<noteq> 0"
    and "stock_needed_double (final_conc (session w)) (final_amount (session w)) sc = Some sn"
    and "water_needed_double (final_amount (session w)) sn = Some wn"
    and "get_float (stock_calculations (session w)) ''stock_amount'' = Inr available"
  shows "calculate_final_dilution_button w =
           (if sn > available then
              Inr (w\<lparr>session := (session w)\<lparr>step2_completed := False\<rparr>,
                     events := events w @
                       [St_error_insufficient sn (fst (get_unit_config (session w))) available]\<rparr>)
            else
              Inr (w\<lparr>session := (session w)\<lparr>dilution_calculations :=
                       [''stock_needed'' \<mapsto> Float sn,
                        ''water_needed'' \<mapsto> Float wn,
                        ''final_amount'' \<mapsto> Float (final_amount (session w)),
                        ''final_conc'' \<mapsto> Float (final_conc (session w)),
                        ''unit'' \<mapsto> Str (fst (get_unit_config (session w))),
                        ''conc_unit'' \<mapsto> Str (snd (get_unit_config (session w)))],
                     step2_completed := True\<rparr>\<rparr>))"
  using assms
  by (simp add: calculate_final_dilution_button_def Let_def update_session_def emit_def
      split: prod.splits)

text \<open>The two ways in which the handler returns.\<close>

lemma final_button_cases:
  assumes "calculate_final_dilution_button w = Inr w'"
  shows "session w' = (session w)\<lparr>step2_completed := False\<rparr> \<or>
         (step2_completed (session w') \<and>
          validate_inputs (final_amount (session w)) (final_conc (session w))
            ''Final Dilution'' (session w) = [] \<and>
          (\<exists>sc available sn.
              get_float (stock_calculations (session w)) ''stock_conc'' = Inr sc \<and>
              get_float (stock_calculations (session w)) ''stock_amount'' = Inr available \<and>
              stock_needed_double (final_conc (session w)) (final_amount (session w)) sc = Some sn \<and>
              sn \<le> available))"
  using assms
  by (auto simp add: calculate_final_dilution_button_def Let_def update_session_def emit_def
      show_errors_eq split: if_splits sum.splits option.splits prod.splits)

text \<open>Reading a stored record changes nothing.\<close>

lemma show_stock_result_same: "show_stock_result w = Inr w' \<Longrightarrow> w' = w"
  by (auto simp add: show_stock_result_def and_then_def Let_def split: if_splits sum.splits)

lemma show_dilution_result_same: "show_dilution_result w = Inr w' \<Longrightarrow> w' = w"
  by (auto simp add: show_dilution_result_def and_then_def Let_def split: if_splits sum.splits)

lemma tab3_same: "tab3 w = Inr w' \<Longrightarrow> w' = w"
  by (auto simp add: tab3_def and_then_def Let_def split: sum.splits)

subsection \<open>Every reachable session is consistent\<close>

lemma get_float_is_float: "is_float (d k) \<Longrightarrow> \<exists>x. get_float d k = Inr x"
  by (auto simp add: is_float_def get_float_def split: option.splits pyval.splits)

lemma is_double_tenth: "is_double (double_of 7205759403792794 (- 56))"
  unfolding double_of_def
  using is_double_normal[of "- 56" 7205759403792794] by (simp add: min_exponent_def)

lemma is_double_three_tenths: "is_double (double_of 5404319552844595 (- 54))"
  unfolding double_of_def
  using is_double_normal[of "- 54" 5404319552844595] by (simp add: min_exponent_def)

lemma preset_double: "SOP_PRESETS p = Some (a, c) \<Longrightarrow> is_double c"
  using is_double_tenth is_double_three_tenths is_double_one
  by (auto simp add: SOP_PRESETS_def split: if_splits)

lemma consistent_stock_conc:
  "session_consistent s \<Longrightarrow> \<exists>c. stock_conc s = Some c \<and> is_double c"
  by (auto simp add: session_consistent_def split: option.splits)

lemma consistent_reset:
  "stock_conc s = Some sc \<Longrightarrow> is_double sc \<Longrightarrow> session_consistent (reset_calculations s)"
  by (auto simp add: session_consistent_def reset_calculations_def)

lemma consistent_select_mode: "session_consistent s \<Longrightarrow> session_consistent (select_mode m s)"
  by (auto simp add: session_consistent_def select_mode_def reset_calculations_def split: option.splits)

lemma consistent_select_units: "session_consistent s \<Longrightarrow> session_consistent (select_units m s)"
  by (auto simp add: session_consistent_def select_units_def reset_calculations_def split: option.splits)

lemma consistent_select_preset:
  assumes "session_consistent s" and "select_preset p s = Inr s'"
  shows "session_consistent s'"
proof -
  from consistent_stock_conc[OF assms(1)] obtain c0 where c0: "stock_conc s = Some c0" by blast
  show ?thesis
  proof (cases "s' = s")
    case True
    with assms(1) show ?thesis by simp
  next
    case False
    with assms(2) c0 obtain a c where pc: "SOP_PRESETS p = Some (a, c)"
      and s': "s' = reset_calculations (s\<lparr>stock_amount := a, stock_conc := Some c\<rparr>)"
      by (auto simp add: select_preset_def Let_def split: if_splits option.splits prod.splits)
    have "stock_conc (s\<lparr>stock_amount := a, stock_conc := Some c\<rparr>) = Some c" by simp
    from consistent_reset[OF this preset_double[OF pc]] s' show ?thesis by simp
  qed
qed

lemma consistent_stock_inputs:
  assumes "session_consistent s" and "is_double c" and "stock_inputs a c s = Inr s'"
  shows "session_consistent s'"
proof (cases "s' = s")
  case True
  with assms(1) show ?thesis by simp
next
  case False
  with assms(3) have s': "s' = reset_calculations (s\<lparr>stock_amount := a, stock_conc := Some c\<rparr>)"
    by (auto simp add: stock_inputs_def split: if_splits option.splits)
  have "stock_conc (s\<lparr>stock_amount := a, stock_conc := Some c\<rparr>) = Some c" by simp
  from consistent_reset[OF this assms(2)] s' show ?thesis by simp
qed

lemma consistent_final_inputs:
  "session_consistent s \<Longrightarrow> session_consistent (final_inputs a c s)"
  by (auto simp add: session_consistent_def final_inputs_def split: option.splits if_splits)

lemma consistent_stock_button:
  assumes "session_consistent (session w)" "calculate_stock_solution_button w = Inr w'"
  shows "session_consistent (session w')"
proof -
  obtain sc where sc: "stock_conc (session w) = Some sc" and dsc: "is_double sc"
    using consistent_stock_conc[OF assms(1)] by blast
  show ?thesis
  proof (cases "validate_inputs (stock_amount (session w)) sc ''Stock Solution'' (session w) = []")
    case True
    then have v: "0 < stock_amount (session w)" "stock_amount (session w) \<le> 10000" "0 < sc" "sc < 100"
      by (simp_all add: validate_stock_nil)
    from assms(2) sc True have "session w' = (session w)\<lparr>stock_calculations :=
        [''emulsion_needed'' \<mapsto> Float (fst (fst (calculate_solution (stock_amount (session w)) sc w))),
         ''water_needed'' \<mapsto> Float (snd (fst (calculate_solution (stock_amount (session w)) sc w))),
         ''stock_amount'' \<mapsto> Float (stock_amount (session w)),
         ''stock_conc'' \<mapsto> Float sc,
         ''unit'' \<mapsto> Str (fst (get_unit_config (session w))),
         ''conc_unit'' \<mapsto> Str (snd (get_unit_config (session w)))],
        step1_completed := True\<rparr>"
      using calculate_solution_session[of "stock_amount (session w)" sc w]
      by (auto simp add: calculate_stock_solution_button_def Let_def update_session_def split: prod.splits)
    with assms(1) sc v show ?thesis
      by (auto simp add: session_consistent_def is_float_def split: if_splits option.splits)
  next
    case False
    with assms(2) sc have "session w' = (session w)\<lparr>step1_completed := False\<rparr>"
      by (auto simp add: calculate_stock_solution_button_def Let_def update_session_def show_errors_eq)
    moreover have "step1_completed (session w) \<Longrightarrow> False"
      using False assms(1) sc by (auto simp add: session_consistent_def validate_stock_nil split: if_splits)
    ultimately show ?thesis using assms(1) sc
      by (auto simp add: session_consistent_def split: if_splits)
  qed
qed

lemma consistent_stock_record:
  assumes "session_consistent s" and "step1_completed s"
  shows "\<exists>sc. stock_conc s = Some sc \<and> is_double sc \<and> 0 < sc \<and>
              get_float (stock_calculations s) ''stock_conc'' = Inr sc \<and>
              get_float (stock_calculations s) ''stock_amount'' = Inr (stock_amount s)"
  using assms
  by (auto simp add: session_consistent_def get_float_def split: option.splits if_splits)

text \<open>
  With valid inputs in a consistent session the handler of the final dilution computes two
  finite numbers and returns.
\<close>

lemma final_button_valid:
  assumes "session_consistent (session w)" and "step1_completed (session w)"
    and "validate_inputs (final_amount (session w)) (final_conc (session w)) ''Final Dilution'' (session w) = []"
  shows "\<exists>sc sn wn. stock_conc (session w) = Some sc \<and>
           stock_needed_double (final_conc (session w)) (final_amount (session w)) sc = Some sn \<and>
           water_needed_double (final_amount (session w)) sn = Some wn \<and>
           calculate_final_dilution_button w =
             (if sn > stock_amount (session w) then
                Inr (w\<lparr>session := (session w)\<lparr>step2_completed := False\<rparr>,
                       events := events w @
                         [St_error_insufficient sn (fst (get_unit_config (session w)))
                            (stock_amount (session w))]\<rparr>)
              else
                Inr (w\<lparr>session := (session w)\<lparr>dilution_calculations :=
                         [''stock_needed'' \<mapsto> Float sn,
                          ''water_needed'' \<mapsto> Float wn,
                          ''final_amount'' \<mapsto> Float (final_amount (session w)),
                          ''final_conc'' \<mapsto> Float (final_conc (session w)),
                          ''unit'' \<mapsto> Str (fst (get_unit_config (session w))),
                          ''conc_unit'' \<mapsto> Str (snd (get_unit_config (session w)))],
                       step2_completed := True\<rparr>\<rparr>))"
proof -
  let ?s = "session w"
  from consistent_stock_record[OF assms(1,2)] obtain sc where
    sc: "stock_conc ?s = Some sc" and dsc: "is_double sc" and pos: "0 < sc" and
    g1: "get_float (stock_calculations ?s) ''stock_conc'' = Inr sc" and
    g2: "get_float (stock_calculations ?s) ''stock_amount'' = Inr (stock_amount ?s)"
    by blast
  from assms(3) have v: "0 < final_amount ?s" "final_amount ?s \<le> 10000" "0 < final_conc ?s"
    "final_conc ?s < 100" "final_conc ?s < sc"
    by (simp_all add: validate_final_nil[OF sc])
  from dilution_finite[OF v(3,4,5) v(1,2) dsc] obtain sn wn where
    sn: "stock_needed_double (final_conc ?s) (final_amount ?s) sc = Some sn" and
    wn: "water_needed_double (final_amount ?s) sn = Some wn"
    by blast
  have nz: "sc \<noteq> 0" using pos by simp
  from final_button_computed[OF assms(3) g1 nz sn wn g2] sc sn wn show ?thesis by blast
qed

lemma consistent_final_button:
  assumes "session_consistent (session w)" "step1_completed (session w)"
    "calculate_final_dilution_button w = Inr w'"
  shows "session_consistent (session w')"
proof (cases "validate_inputs (final_amount (session w)) (final_conc (session w))
                ''Final Dilution'' (session w) = []")
  case False
  from final_button_rejected[OF False] assms(3)
  have "session w' = (session w)\<lparr>step2_completed := False\<rparr>" by auto
  with assms(1) show ?thesis
    by (auto simp add: session_consistent_def split: option.splits if_splits)
next
  case True
  from final_button_valid[OF assms(1,2) True] obtain sc sn wn where
    sc: "stock_conc (session w) = Some sc" and
    sn: "stock_needed_double (final_conc (session w)) (final_amount (session w)) sc = Some sn" and
    wn: "water_needed_double (final_amount (session w)) sn = Some wn" and
    r: "calculate_final_dilution_button w =
             (if sn > stock_amount (session w) then
                Inr (w\<lparr>session := (session w)\<lparr>step2_completed := False\<rparr>,
                       events := events w @
                         [St_error_insufficient sn (fst (get_unit_config (session w)))
                            (stock_amount (session w))]\<rparr>)
              else
                Inr (w\<lparr>session := (session w)\<lparr>dilution_calculations :=
                         [''stock_needed'' \<mapsto> Float sn,
                          ''water_needed'' \<mapsto> Float wn,
                          ''final_amount'' \<mapsto> Float (final_amount (session w)),
                          ''final_conc'' \<mapsto> Float (final_conc (session w)),
                          ''unit'' \<mapsto> Str (fst (get_unit_config (session w))),
                          ''conc_unit'' \<mapsto> Str (snd (get_unit_config (session w)))],
                       step2_completed := True\<rparr>\<rparr>))"
    by blast
  show ?thesis
  proof (cases "sn > stock_amount (session w)")
    case True
    with r assms(3) have "session w' = (session w)\<lparr>step2_completed := False\<rparr>" by auto
    with assms(1) show ?thesis
      by (auto simp add: session_consistent_def split: option.splits if_splits)
  next
    case False
    with r assms(3) have "session w' = (session w)\<lparr>dilution_calculations :=
                         [''stock_needed'' \<mapsto> Float sn,
                          ''water_needed'' \<mapsto> Float wn,
                          ''final_amount'' \<mapsto> Float (final_amount (session w)),
                          ''final_conc'' \<mapsto> Float (final_conc (session w)),
                          ''unit'' \<mapsto> Str (fst (get_unit_config (session w))),
                          ''conc_unit'' \<mapsto> Str (snd (get_unit_config (session w)))],
                       step2_completed := True\<rparr>" by auto
    with assms(1,2) sc sn wn False show ?thesis
      by (auto simp add: session_consistent_def split: if_splits)
  qed
qed

lemma consistent_tab1:
  assumes "session_consistent (session w)" "is_double (new_conc i)" "tab1 i w = Inr w'"
  shows "session_consistent (session w')"
proof -
  from assms(3) obtain s1 w1 where s1: "stock_inputs (new_amount i) (new_conc i) (session w) = Inr s1"
    and r: "(if stock_button i then calculate_stock_solution_button (w\<lparr>session := s1\<rparr>)
             else Inr (w\<lparr>session := s1\<rparr>)) = Inr w1"
    and d: "show_stock_result w1 = Inr w'"
    by (auto simp add: tab1_def and_then_def Let_def split: sum.splits)
  have c: "session_consistent (session (w\<lparr>session := s1\<rparr>))"
    using consistent_stock_inputs[OF assms(1,2) s1] by simp
  have "session_consistent (session w1)"
  proof (cases "stock_button i")
    case True
    with r have "calculate_stock_solution_button (w\<lparr>session := s1\<rparr>) = Inr w1" by simp
    from consistent_stock_button[OF c this] show ?thesis .
  next
    case False
    with r c show ?thesis by auto
  qed
  with show_stock_result_same[OF d] show ?thesis by simp
qed

lemma consistent_tab2:
  assumes "session_consistent (session w)" "step1_completed (session w)" "tab2 i w = Inr w'"
  shows "session_consistent (session w')"
proof -
  let ?w1 = "update_session (final_inputs (new_final_amount i) (new_final_conc i)) w"
  have c1: "session_consistent (session ?w1)"
    using assms(1) by (simp add: update_session_def consistent_final_inputs)
  have s1: "step1_completed (session ?w1)"
    using assms(2) by (simp add: update_session_def final_inputs_def)
  from assms(3) obtain w2 where
    r: "(if final_button i then calculate_final_dilution_button ?w1 else Inr ?w1) = Inr w2"
    and d: "show_dilution_result w2 = Inr w'"
    by (auto simp add: tab2_def and_then_def Let_def split: sum.splits)
  have "session_consistent (session w2)"
  proof (cases "final_button i")
    case True
    with r have "calculate_final_dilution_button ?w1 = Inr w2" by simp
    from consistent_final_button[OF c1 s1 this] show ?thesis .
  next
    case False
    with r c1 show ?thesis by auto
  qed
  with show_dilution_result_same[OF d] show ?thesis by simp
qed

lemma consistent_main_body:
  assumes "session_consistent (session w)" "is_double (new_conc i)" "main_body i w = Inr w'"
  shows "session_consistent (session w')"
proof -
  let ?s1 = "select_units (new_unit_type i) (select_mode (new_mode i) (session w))"
  from assms(3) obtain s2 w2 where s2: "select_preset (selected_preset i) ?s1 = Inr s2"
    and w2: "tab1 i (w\<lparr>session := s2\<rparr>) = Inr w2"
    and rest: "(if \<not> step1_completed (session w2) then Inr (emit St_warning_stock_first w2)
                else and_then (tab2 i w2)
                  (\<lambda>w3. if \<not> step2_completed (session w3)
                         then Inr (emit St_warning_both_first w3)
                         else tab3 w3)) = Inr w'"
    by (auto simp add: main_body_def and_then_def Let_def split: sum.splits)
  have "session_consistent ?s1"
    by (intro consistent_select_units consistent_select_mode assms(1))
  from consistent_select_preset[OF this s2]
  have "session_consistent (session (w\<lparr>session := s2\<rparr>))" by simp
  from consistent_tab1[OF this assms(2) w2] have c2: "session_consistent (session w2)" .
  show ?thesis
  proof (cases "step1_completed (session w2)")
    case False
    with rest c2 show ?thesis by (auto simp add: emit_def)
  next
    case True
    with rest obtain w3 where w3: "tab2 i w2 = Inr w3"
      and last: "(if \<not> step2_completed (session w3) then Inr (emit St_warning_both_first w3)
                  else tab3 w3) = Inr w'"
      by (auto simp add: and_then_def split: sum.splits)
    from consistent_tab2[OF c2 True w3] have c3: "session_consistent (session w3)" .
    show ?thesis
    proof (cases "step2_completed (session w3)")
      case False
      with last c3 show ?thesis by (auto simp add: emit_def)
    next
      case True
      with last have "tab3 w3 = Inr w'" by simp
      from tab3_same[OF this] c3 show ?thesis by simp
    qed
  qed
qed

lemma consistent_init: "session_consistent s \<Longrightarrow> init_session_state s = s"
  by (auto simp add: session_consistent_def init_session_state_def split: option.splits)

lemma consistent_main_run:
  assumes "session_consistent (session w)" "is_double (new_conc i)" "main_run i w = Inr w'"
  shows "session_consistent (session w')"
proof -
  have w0: "update_session init_session_state w = w"
    using consistent_init[OF assms(1)] by (simp add: update_session_def)
  obtain sc where sc: "stock_conc (session w) = Some sc" "is_double sc"
    using consistent_stock_conc[OF assms(1)] by blast
  show ?thesis
  proof (cases "reset_button i")
    case False
    with assms(3) w0 have "main_body i w = Inr w'" by (simp add: main_run_def Let_def)
    from consistent_main_body[OF assms(1,2) this] show ?thesis .
  next
    case True
    let ?wr = "emit St_success_reset (update_session reset_calculations w)"
    let ?i = "i\<lparr>reset_button := False, stock_button := False, final_button := False\<rparr>"
    have cr: "session_consistent (session ?wr)"
      using consistent_reset[OF sc] by (simp add: emit_def update_session_def)
    then have "update_session init_session_state ?wr = ?wr"
      using consistent_init by (simp add: update_session_def)
    with True assms(3) w0 have m: "main_body ?i ?wr = Inr w'"
      by (simp add: main_run_def Let_def)
    have "is_double (new_conc ?i)" using assms(2) by simp
    from consistent_main_body[OF cr this m] show ?thesis .
  qed
qed

lemma consistent_fresh: "session_consistent fresh_session"
  by (simp add: session_consistent_def fresh_session_def is_double_one)

lemma reachable_consistent: "reachable w \<Longrightarrow> session_consistent (session w)"
proof (induction rule: reachable.induct)
  case start
  show ?case by (simp add: fresh_world_def consistent_fresh)
next
  case (run w i w')
  then show ?case using consistent_main_run by (simp add: widgets_ok_def) blast
qed

subsection \<open>No run of a reachable session raises or leaves the finite numbers\<close>

lemma stock_button_total:
  assumes "session_consistent (session w)"
  shows "\<exists>w'. calculate_stock_solution_button w = Inr w'"
proof -
  from consistent_stock_conc[OF assms] obtain c where "stock_conc (session w) = Some c" by blast
  then show ?thesis
    by (simp add: calculate_stock_solution_button_def Let_def split: prod.splits)
qed

lemma final_button_total:
  assumes "session_consistent (session w)" and "step1_completed (session w)"
  shows "\<exists>w'. calculate_final_dilution_button w = Inr w'"
proof (cases "validate_inputs (final_amount (session w)) (final_conc (session w))
                ''Final Dilution'' (session w) = []")
  case False
  from final_button_rejected[OF False] show ?thesis by blast
next
  case True
  from final_button_valid[OF assms True] show ?thesis
    by (metis (full_types))
qed

lemma show_stock_result_total:
  assumes "session_consistent (session w)"
  shows "show_stock_result w = Inr w"
proof (cases "step1_completed (session w)")
  case False
  then show ?thesis by (simp add: show_stock_result_def)
next
  case True
  with assms show ?thesis
    by (auto simp add: show_stock_result_def session_consistent_def and_then_def get_float_def
        is_float_def Let_def split: option.splits pyval.splits)
qed

lemma show_dilution_result_total:
  assumes "session_consistent (session w)"
  shows "show_dilution_result w = Inr w"
proof (cases "step2_completed (session w)")
  case False
  then show ?thesis by (simp add: show_dilution_result_def)
next
  case True
  with assms show ?thesis
    by (auto simp add: show_dilution_result_def session_consistent_def and_then_def get_float_def
        Let_def split: option.splits)
qed

lemma tab3_total:
  assumes "session_consistent (session w)" and "step2_completed (session w)"
  shows "tab3 w = Inr w"
  using assms
  by (auto simp add: tab3_def session_consistent_def and_then_def get_float_def
      is_float_def Let_def split: option.splits pyval.splits)

lemma tab1_total:
  assumes "session_consistent (session w)" and "is_double (new_conc i)"
  shows "\<exists>w'. tab1 i w = Inr w'"
proof -
  from consistent_stock_conc[OF assms(1)] obtain c where c: "stock_conc (session w) = Some c" by blast
  then have "\<exists>s1. stock_inputs (new_amount i) (new_conc i) (session w) = Inr s1"
    by (simp add: stock_inputs_def)
  then obtain s1 where s1: "stock_inputs (new_amount i) (new_conc i) (session w) = Inr s1" ..
  have c1: "session_consistent (session (w\<lparr>session := s1\<rparr>))"
    using consistent_stock_inputs[OF assms s1] by simp
  obtain w1 where w1: "(if stock_button i then calculate_stock_solution_button (w\<lparr>session := s1\<rparr>)
             else Inr (w\<lparr>session := s1\<rparr>)) = Inr w1"
    using stock_button_total[OF c1] by (cases "stock_button i") auto
  have "session_consistent (session w1)"
  proof (cases "stock_button i")
    case True
    with w1 have "calculate_stock_solution_button (w\<lparr>session := s1\<rparr>) = Inr w1" by simp
    from consistent_stock_button[OF c1 this] show ?thesis .
  next
    case False
    with w1 c1 show ?thesis by auto
  qed
  from show_stock_result_total[OF this] s1 w1 show ?thesis
    by (auto simp add: tab1_def and_then_def Let_def)
qed

lemma tab2_total:
  assumes "session_consistent (session w)" and "step1_completed (session w)"
  shows "\<exists>w'. tab2 i w = Inr w'"
proof -
  let ?w1 = "update_session (final_inputs (new_final_amount i) (new_final_conc i)) w"
  have c1: "session_consistent (session ?w1)"
    using assms(1) by (simp add: update_session_def consistent_final_inputs)
  have s1: "step1_completed (session ?w1)"
    using assms(2) by (simp add: update_session_def final_inputs_def)
  obtain w2 where w2: "(if final_button i then calculate_final_dilution_button ?w1 else Inr ?w1) = Inr w2"
    using final_button_total[OF c1 s1] by (cases "final_button i") auto
  have "session_consistent (session w2)"
  proof (cases "final_button i")
    case True
    with w2 have "calculate_final_dilution_button ?w1 = Inr w2" by simp
    from consistent_final_button[OF c1 s1 this] show ?thesis .
  next
    case False
    with w2 c1 show ?thesis by auto
  qed
  from show_dilution_result_total[OF this] w2 show ?thesis
    by (auto simp add: tab2_def and_then_def Let_def)
qed

lemma main_body_total:
  assumes "session_consistent (session w)" and "is_double (new_conc i)"
    and "SOP_PRESETS (selected_preset i) \<noteq> None"
  shows "\<exists>w'. main_body i w = Inr w'"
proof -
  let ?s1 = "select_units (new_unit_type i) (select_mode (new_mode i) (session w))"
  have c1: "session_consistent ?s1"
    by (intro consistent_select_units consistent_select_mode assms(1))
  from consistent_stock_conc[OF c1] assms(3)
  have "\<exists>s2. select_preset (selected_preset i) ?s1 = Inr s2"
    unfolding select_preset_def Let_def
    by (auto split: prod.splits)
  then obtain s2 where s2: "select_preset (selected_preset i) ?s1 = Inr s2" ..
  have c2: "session_consistent (session (w\<lparr>session := s2\<rparr>))"
    using consistent_select_preset[OF c1 s2] by simp
  from tab1_total[OF c2 assms(2)] obtain w2 where w2: "tab1 i (w\<lparr>session := s2\<rparr>) = Inr w2" ..
  from consistent_tab1[OF c2 assms(2) w2] have cw2: "session_consistent (session w2)" .
  show ?thesis
  proof (cases "step1_completed (session w2)")
    case False
    with s2 w2 show ?thesis by (simp add: main_body_def and_then_def Let_def)
  next
    case True
    from tab2_total[OF cw2 True] obtain w3 where w3: "tab2 i w2 = Inr w3" ..
    from consistent_tab2[OF cw2 True w3] have cw3: "session_consistent (session w3)" .
    show ?thesis
    proof (cases "step2_completed (session w3)")
      case False
      with s2 w2 w3 True show ?thesis by (simp add: main_body_def and_then_def Let_def)
    next
      case s2c: True
      from tab3_total[OF cw3 s2c] s2 w2 w3 True s2c show ?thesis
        by (simp add: main_body_def and_then_def Let_def)
    qed
  qed
qed

lemma main_run_total:
  assumes "reachable w" and "widgets_ok i"
  shows "\<exists>w'. main_run i w = Inr w'"
proof -
  have c: "session_consistent (session w)" by (rule reachable_consistent[OF assms(1)])
  have d: "is_double (new_conc i)" and p: "SOP_PRESETS (selected_preset i) \<noteq> None"
    using assms(2) by (simp_all add: widgets_ok_def)
  have w0: "update_session init_session_state w = w"
    using consistent_init[OF c] by (simp add: update_session_def)
  show ?thesis
  proof (cases "reset_button i")
    case False
    with w0 main_body_total[OF c d p] show ?thesis by (simp add: main_run_def Let_def)
  next
    case True
    let ?wr = "emit St_success_reset (update_session reset_calculations w)"
    let ?i = "i\<lparr>reset_button := False, stock_button := False, final_button := False\<rparr>"
    obtain sc where sc: "stock_conc (session w) = Some sc" "is_double sc"
      using consistent_stock_conc[OF c] by blast
    from consistent_reset[OF sc] have cr: "session_consistent (session ?wr)"
      by (simp add: emit_def update_session_def)
    then have "update_session init_session_state ?wr = ?wr"
      using consistent_init by (simp add: update_session_def)
    moreover have "is_double (new_conc ?i)" "SOP_PRESETS (selected_preset ?i) \<noteq> None"
      using d p by simp_all
    from main_body_total[OF cr this] obtain w' where "main_body ?i ?wr = Inr w'" ..
    ultimately show ?thesis using True w0 by (simp add: main_run_def Let_def)
  qed
qed

text \<open>
  In a reachable session the second tab offers its button only when step 1 is complete,
  and then the stored stock record is the one that the validator compares with.
\<close>

lemma reachable_stock_record:
  assumes "reachable w" and "step1_completed (session w)"
  shows "\<exists>sc. stock_conc (session w) = Some sc \<and> is_double sc \<and> 0 < sc \<and>
              get_float (stock_calculations (session w)) ''stock_conc'' = Inr sc \<and>
              get_float (stock_calculations (session w)) ''stock_amount''
                = Inr (stock_amount (session w))"
  using consistent_stock_record[OF reachable_consistent[OF assms(1)] assms(2)] .

subsection \<open>The concrete sessions evaluated\<close>

lemmas run_defs = main_run_def main_body_def tab1_def tab2_def tab3_def and_then_def
  show_stock_result_def show_dilution_result_def
  select_mode_def select_units_def select_preset_def stock_inputs_def final_inputs_def
  calculate_stock_solution_button_def calculate_final_dilution_button_def
  calculate_solution_def calculate_solution_try_def validate_inputs_def
  update_session_def emit_def init_session_state_def reset_calculations_def
  get_unit_config_def UNIT_CONFIGS_def get_float_def
  fresh_world_def fresh_session_def manual_widgets_def show_errors_eq

lemma after_stock_solution_eq:
  assumes "0 < a" "a \<le> 10000" "0 < c" "c < 100"
  shows "after_stock_solution a c fa fc =
     \<lparr>session = \<lparr>mode = ''Manual Input'', unit_type = ''Weight (g) / % w/w'',
         step1_completed = True, step2_completed = False,
         stock_calculations =
           [''emulsion_needed'' \<mapsto> Float (a * (c / 100)),
            ''water_needed'' \<mapsto> Float (a - a * (c / 100)),
            ''stock_amount'' \<mapsto> Float a,
            ''stock_conc'' \<mapsto> Float c,
            ''unit'' \<mapsto> Str ''g'',
            ''conc_unit'' \<mapsto> Str ''% w/w''],
         dilution_calculations = Map.empty,
         stock_amount = a, stock_conc = Some c, final_amount = fa, final_conc = fc\<rparr>,
      events = [Logger_info_calculated (a * (c / 100)) (a - a * (c / 100)),
                St_warning_both_first]\<rparr>"
  using assms
  by (simp add: after_stock_solution_def run_defs Let_def)

lemma manual_widgets_ok:
  assumes "is_double a" "is_double c" "is_double fa" "is_double fc"
  shows "widgets_ok ((manual_widgets a c fa fc)\<lparr>stock_button := sb, final_button := fb\<rparr>)"
  using assms by (simp add: widgets_ok_def manual_widgets_def SOP_PRESETS_def)

lemma reachable_after_stock_solution:
  assumes "is_double a" "is_double c" "is_double fa" "is_double fc"
  shows "reachable (after_stock_solution a c fa fc)"
proof (cases "main_run ((manual_widgets a c fa fc)\<lparr>stock_button := True\<rparr>) fresh_world")
  case (Inl e)
  then show ?thesis by (simp add: after_stock_solution_def reachable.start)
next
  case (Inr w)
  have "widgets_ok ((manual_widgets a c fa fc)\<lparr>stock_button := True\<rparr>)"
    using manual_widgets_ok[OF assms, where sb = True and fb = False] by (simp add: manual_widgets_def)
  from reachable.run[OF reachable.start this Inr] Inr show ?thesis
    by (simp add: after_stock_solution_def)
qed

lemma reachable_after_final_dilution:
  assumes "is_double a" "is_double c" "is_double fa" "is_double fc"
  shows "reachable (after_final_dilution a c fa fc)"
proof (cases "main_run ((manual_widgets a c fa fc)\<lparr>final_button := True\<rparr>)
                (after_stock_solution a c fa fc)")
  case (Inl e)
  then show ?thesis by (simp add: after_final_dilution_def reachable.start)
next
  case (Inr w)
  have "widgets_ok ((manual_widgets a c fa fc)\<lparr>final_button := True\<rparr>)"
    using manual_widgets_ok[OF assms, where sb = False and fb = True] by (simp add: manual_widgets_def)
  from reachable.run[OF reachable_after_stock_solution[OF assms] this Inr] Inr show ?thesis
    by (simp add: after_final_dilution_def)
qed

lemma after_final_dilution_scenario2:
  "session (after_final_dilution 200 1 200 (double_of 7205759403792794 (- 56))) =
     (session (after_stock_solution 200 1 200 (double_of 7205759403792794 (- 56))))
       \<lparr>dilution_calculations :=
          [''stock_needed'' \<mapsto> Float 20, ''water_needed'' \<mapsto> Float 180,
           ''final_amount'' \<mapsto> Float 200,
           ''final_conc'' \<mapsto> Float (double_of 7205759403792794 (- 56)),
           ''unit'' \<mapsto> Str ''g'', ''conc_unit'' \<mapsto> Str ''% w/w''],
        step2_completed := True\<rparr>"
  by (simp add: after_final_dilution_def after_stock_solution_eq run_defs Let_def tenth_bounds
      stock_needed_double_tenth water_needed_double_scenario2)

text \<open>
  The test of the handler is on the rounded number. From a stock of 20 at 1 percent, 200
  at the double nearest to 0.1 percent need a little more than 20 in exact arithmetic,
  because that double is above one tenth. Python computes exactly 20, and the handler
  accepts.
\<close>

lemma final_dilution_exactly_enough:
  "20 < stock_needed (double_of 7205759403792794 (- 56)) 200 1 \<and>
   stock_needed_double (double_of 7205759403792794 (- 56)) 200 1 = Some 20 \<and>
   (case calculate_final_dilution_button
           (after_stock_solution 20 1 200 (double_of 7205759403792794 (- 56))) of
      Inl e \<Rightarrow> False
    | Inr w' \<Rightarrow>
        step2_completed (session w') \<and>
        dilution_calculations (session w') ''stock_needed'' = Some (Float 20) \<and>
        dilution_calculations (session w') ''water_needed'' = Some (Float 180))"
proof -
  let ?w = "after_stock_solution 20 1 200 (double_of 7205759403792794 (- 56))"
  have v: "validate_inputs (final_amount (session ?w)) (final_conc (session ?w))
             ''Final Dilution'' (session ?w) = []"
    by (simp add: after_stock_solution_eq validate_inputs_def tenth_bounds)
  have g1: "get_float (stock_calculations (session ?w)) ''stock_conc'' = Inr 1"
    by (simp add: after_stock_solution_eq get_float_def)
  have g2: "get_float (stock_calculations (session ?w)) ''stock_amount'' = Inr 20"
    by (simp add: after_stock_solution_eq get_float_def)
  have n: "stock_needed_double (final_conc (session ?w)) (final_amount (session ?w)) 1 = Some 20"
    by (simp add: after_stock_solution_eq stock_needed_double_tenth)
  have m: "water_needed_double (final_amount (session ?w)) 20 = Some 180"
    by (simp add: after_stock_solution_eq water_needed_double_scenario2)
  have nz: "(1::real) \<noteq> 0" by simp
  have x: "20 < stock_needed (double_of 7205759403792794 (- 56)) 200 1"
    by (simp add: stock_needed_def double_of_def power_int_minus)
  show ?thesis
    by (simp add: final_button_computed[OF v g1 nz n m g2] stock_needed_double_tenth x)
qed

text \<open>
  From a stock of 3 at the double nearest to 0.1 percent, 6 at the double nearest to 0.05
  percent need exactly the 3 available in exact arithmetic. Python computes
  \<open>3.0000000000000004\<close>, and the handler rejects.
\<close>

lemma final_dilution_rounded_up:
  "stock_needed (double_of 7205759403792794 (- 57)) 6 (double_of 7205759403792794 (- 56)) = 3 \<and>
   stock_needed_double (double_of 7205759403792794 (- 57)) 6 (double_of 7205759403792794 (- 56))
     = Some (double_of 6755399441055745 (- 51)) \<and>
   (case calculate_final_dilution_button
           (after_stock_solution 3 (double_of 7205759403792794 (- 56)) 6
              (double_of 7205759403792794 (- 57))) of
      Inl e \<Rightarrow> False
    | Inr w' \<Rightarrow>
        \<not> step2_completed (session w') \<and>
        events w' =
          events (after_stock_solution 3 (double_of 7205759403792794 (- 56)) 6
                    (double_of 7205759403792794 (- 57))) @
          [St_error_insufficient (double_of 6755399441055745 (- 51)) ''g'' 3])"
proof -
  let ?c = "double_of 7205759403792794 (- 56)"
  let ?f = "double_of 7205759403792794 (- 57)"
  let ?n = "double_of 6755399441055745 (- 51)"
  let ?w = "after_stock_solution 3 ?c 6 ?f"
  have e: "?w = after_stock_solution 3 ?c 6 ?f" by simp
  note eq = after_stock_solution_eq[of 3 ?c 6 ?f, OF _ _ tenth_bounds(1) tenth_bounds(5)]
  have v: "validate_inputs (final_amount (session ?w)) (final_conc (session ?w))
             ''Final Dilution'' (session ?w) = []"
    by (simp add: eq validate_inputs_def twentieth_bounds)
  have g1: "get_float (stock_calculations (session ?w)) ''stock_conc'' = Inr ?c"
    by (simp add: eq get_float_def)
  have g2: "get_float (stock_calculations (session ?w)) ''stock_amount'' = Inr 3"
    by (simp add: eq get_float_def)
  have n: "stock_needed_double (final_conc (session ?w)) (final_amount (session ?w)) ?c = Some ?n"
    by (simp add: eq stock_needed_double_rounds_up)
  have m: "water_needed_double (final_amount (session ?w)) ?n
             = Some (double_of 6755399441055743 (- 51))"
    by (simp add: eq water_needed_double_rounds_up)
  have u: "fst (get_unit_config (session ?w)) = ''g''"
    by (simp add: eq get_unit_config_def UNIT_CONFIGS_def)
  have k: "\<not> step2_completed (session ?w)" by (simp add: eq)
  show ?thesis
    by (simp add: final_button_computed[OF v g1 twentieth_bounds(7) n m g2]
        stock_needed_double_rounds_up stock_needed_exact_three twentieth_bounds u)
qed

section \<open>The claims\<close>

subsection \<open>Facts used below\<close>

lemma all_rules_complete: "(\<forall>r. P r) \<longleftrightarrow> (\<forall>r \<in> set all_rules. P r)"
proof
  assume "\<forall>r. P r" then show "\<forall>r \<in> set all_rules. P r" by simp
next
  assume a: "\<forall>r \<in> set all_rules. P r"
  show "\<forall>r. P r"
  proof
    fix r show "P r" using a by (cases r) (simp_all add: all_rules_def)
  qed
qed

lemma violation_message_inj:
  "violation_message step_name r = violation_message step_name r' \<Longrightarrow> r = r'"
proof -
  assume eq: "violation_message step_name r = violation_message step_name r'"
  then have "last (violation_message step_name r) = last (violation_message step_name r')"
    and "length (violation_message step_name r) = length (violation_message step_name r')"
    by simp_all
  with eq show ?thesis
    by (cases r; cases r') simp_all
qed

lemma validate_inputs_scenario4_any_session:
  "validate_inputs (- 5) 1 ''Stock Solution'' s = [''Stock Solution: Amount must be greater than 0'']"
  by (simp add: validate_inputs_def)

lemma validate_inputs_reads_session:
  "validate_inputs 200 (1 / 2) ''Final Dilution'' (fresh_session\<lparr>stock_conc := Some 1\<rparr>) = [] \<and>
   validate_inputs 200 (1 / 2) ''Final Dilution'' (fresh_session\<lparr>stock_conc := Some (3 / 10)\<rparr>) =
     [''Final concentration should be lower than stock concentration'']"
  by (simp add: validate_inputs_def fresh_session_def)

subsection \<open>C1: the dilution formula\<close>

text \<open>
  C1. The claim: the dilution computation returns
  \<open>stockNeeded = finalConcentrationPercent * finalAmount / stockConcentrationPercent\<close> and
  \<open>waterNeeded = finalAmount - stockNeeded\<close>; for a stock of 200 at 1.0 percent and a final
  amount of 200 at 0.1 percent this is 20 and 180.

  \<^verbatim>\<open>mode_flocculant_agent.py\<close> computes exactly this (\<open>stock_needed\<close>, \<open>water_needed\<close>
  are the two lines in exact arithmetic; the handler evaluates them in double precision,
  \<open>final_button_computed\<close>, and stores exactly 20 and 180 on these inputs,
  \<open>after_final_dilution_scenario2\<close>). Step 2 of \<^verbatim>\<open>app.py\<close> does not: it calls
  \<^verbatim>\<open>calculate_solution(final_amount, final_conc)\<close>, which never sees the stock
  concentration. On the same inputs it reports 0.2 of stock solution and 199.8 of water.
\<close>

theorem app_step2_scenario2:
  "fst (app_step2 200 (1 / 10) (snd (app_step1 200 1 app_start))) = Some (1 / 5, 999 / 5) \<and>
   stock_needed (1 / 10) 200 1 = 20 \<and>
   water_needed 200 (stock_needed (1 / 10) 200 1) = 180"
  by (simp add: app_step2_def app_step1_def app_calculate_solution_def app_start_def
      stock_needed_def water_needed_def Let_def)

subsection \<open>C2: the solute and solvent split\<close>

text \<open>
  C2 as stated fails on the numbers that the code returns. For the target amount 50 at
  3.5 percent, both doubles, the three lines of \<^verbatim>\<open>calculate_solution\<close> return the solute
  \<open>1.7500000000000002\<close>, because the code divides the concentration by 100 first and
  0.035 is no double. The value of \<open>50 * 3.5 / 100\<close> is 1.75, which is a double, and
  1.75 is also what Python gives for that expression evaluated from the left.
\<close>

theorem calculate_solution_double_not_the_formula:
  "(0::real) < 50 \<and> (0::real) < 7 / 2 \<and> (7 / 2 :: real) < 100 \<and>
   is_double 50 \<and> is_double (7 / 2) \<and>
   calculate_solution_double 50 (7 / 2) = Some (double_of 7881299347898369 (- 52), 193 / 4) \<and>
   (50::real) * (7 / 2) / 100 = 7 / 4 \<and>
   is_double (7 / 4) \<and>
   round_double (50 * (7 / 2)) = Some 175 \<and>
   round_double (175 / 100) = Some (7 / 4) \<and>
   double_of 7881299347898369 (- 52) \<noteq> 7 / 4 \<and>
   double_of 7881299347898369 (- 52) - 7 / 4 = 1 / 2 ^ 52"
proof -
  have a: "round_double (50 * (7 / 2)) = Some 175"
    using is_double_175 by (simp add: is_double_def)
  have b: "round_double (175 / 100) = Some (7 / 4)"
    using is_double_7_4 by (simp add: is_double_def)
  have c: "double_of 7881299347898369 (- 52) - 7 / 4 = 1 / 2 ^ 52"
    by (simp add: double_of_def power_int_minus)
  then have d: "double_of 7881299347898369 (- 52) \<noteq> 7 / 4" by auto
  show ?thesis
    by (simp only: a b c d is_double_50 is_double_7_2 is_double_7_4 calculate_solution_double_50
        simp_thms not_False_eq_True) simp
qed

text \<open>
  C2, amended. For every target amount above 0 and every concentration strictly between 0
  and 100, the formulas
  \<open>soluteAmount = targetAmount * concentrationPercent / 100\<close> and
  \<open>solventAmount = targetAmount - soluteAmount\<close> are what \<^verbatim>\<open>calculate_solution\<close> of
  either file computes in exact arithmetic. What Python returns for two doubles is each
  of the three operations rounded to the nearest double: the solute is the rounded
  product of the amount and the rounded fraction, within the relative error \<open>2 ^ -51\<close> of
  the formula (and an absolute error below the smallest positive double for each unit of
  the amount), the solvent is the rounded difference, both lie between 0 and the amount,
  and their sum is within the relative tolerance \<open>1e-9\<close> of the amount.
\<close>

theorem calculate_solution_split:
  assumes "0 < target_amount" and "0 < concentration" and "concentration < 100"
  shows "fst (calculate_solution target_amount concentration w) =
           (target_amount * concentration / 100,
            target_amount - target_amount * concentration / 100) \<and>
         app_calculate_solution target_amount concentration g =
           (target_amount * concentration / 100,
            target_amount - target_amount * concentration / 100) \<and>
         (is_double target_amount \<and> is_double concentration \<longrightarrow>
            (case calculate_solution_double target_amount concentration of
               None \<Rightarrow> False
             | Some (solute_amount, solvent_amount) \<Rightarrow>
                 solute_amount =
                   nearest_double (target_amount * nearest_double (concentration / 100)) \<and>
                 solvent_amount = nearest_double (target_amount - solute_amount) \<and>
                 \<bar>solute_amount - target_amount * concentration / 100\<bar>
                   \<le> target_amount * concentration / 100 / 2 ^ 51
                       + (target_amount + 1) * 2 powi min_exponent \<and>
                 \<bar>solvent_amount - (target_amount - solute_amount)\<bar>
                   \<le> \<bar>target_amount - solute_amount\<bar> / 2 ^ 53 \<and>
                 0 \<le> solute_amount \<and> solute_amount \<le> target_amount \<and>
                 0 \<le> solvent_amount \<and> solvent_amount \<le> target_amount \<and>
                 \<bar>solute_amount + solvent_amount - target_amount\<bar>
                   \<le> \<bar>target_amount\<bar> / 10 ^ 9))"
proof -
  define s where "s = nearest_double (target_amount * nearest_double (concentration / 100))"
  define v where "v = nearest_double (target_amount - s)"
  have exact: "fst (calculate_solution target_amount concentration w) =
                 (target_amount * concentration / 100,
                  target_amount - target_amount * concentration / 100)"
    "app_calculate_solution target_amount concentration g =
       (target_amount * concentration / 100,
        target_amount - target_amount * concentration / 100)"
    using assms
    by (simp_all add: calculate_solution_def calculate_solution_try_def
        app_calculate_solution_def Let_def)
  have e: "\<bar>s - target_amount * concentration / 100\<bar>
             \<le> target_amount * concentration / 100 / 2 ^ 51
                 + (target_amount + 1) * 2 powi min_exponent"
    unfolding s_def by (rule solute_double_error[OF assms(1,2)])
  have "case calculate_solution_double target_amount concentration of
          None \<Rightarrow> False
        | Some (solute_amount, solvent_amount) \<Rightarrow>
            solute_amount =
              nearest_double (target_amount * nearest_double (concentration / 100)) \<and>
            solvent_amount = nearest_double (target_amount - solute_amount) \<and>
            \<bar>solute_amount - target_amount * concentration / 100\<bar>
              \<le> target_amount * concentration / 100 / 2 ^ 51
                  + (target_amount + 1) * 2 powi min_exponent \<and>
            \<bar>solvent_amount - (target_amount - solute_amount)\<bar>
              \<le> \<bar>target_amount - solute_amount\<bar> / 2 ^ 53 \<and>
            0 \<le> solute_amount \<and> solute_amount \<le> target_amount \<and>
            0 \<le> solvent_amount \<and> solvent_amount \<le> target_amount \<and>
            \<bar>solute_amount + solvent_amount - target_amount\<bar>
              \<le> \<bar>target_amount\<bar> / 10 ^ 9"
    if d: "is_double target_amount" "is_double concentration"
  proof -
    note r = calculate_solution_double_value[OF d assms s_def v_def]
    from r(1) have "calculate_solution_double target_amount concentration = Some (s, v)" .
    moreover have "s = nearest_double (target_amount * nearest_double (concentration / 100))"
      by (fact s_def)
    moreover have "v = nearest_double (target_amount - s)" by (fact v_def)
    ultimately show ?thesis using e r(2-7) by simp
  qed
  with exact show ?thesis by simp
qed

text \<open>
  The theorem at the target amount 200 and the concentration 1 percent: 2 of solute and
  198 of solvent, in exact arithmetic and in double precision, where the fraction is the
  double nearest to 0.01 and the product rounds to 2.
\<close>

theorem calculate_solution_split_witness:
  "(0::real) < 200 \<and> (0::real) < 1 \<and> (1::real) < 100 \<and>
   is_double 200 \<and> is_double 1 \<and>
   fst (calculate_solution 200 1 fresh_world) = (2, 198) \<and>
   app_calculate_solution 200 1 app_start = (2, 198) \<and>
   calculate_solution_double 200 1 = Some (2, 198) \<and>
   nearest_double (200 * nearest_double (1 / 100)) = 2 \<and>
   nearest_double (200 - 2) = 198"
  using calculate_solution_split [of 200 1 fresh_world app_start]
  by (auto simp add: is_double_200 is_double_one calculate_solution_double_scenario1
      split: prod.splits)

subsection \<open>C3: the two variants of step 2\<close>

text \<open>
  C3. The claim is that step 2 of \<^verbatim>\<open>app.py\<close> and the dilution of
  \<^verbatim>\<open>mode_flocculant_agent.py\<close> give the same split. They never do for a stock
  concentration strictly between 0 and 100: the first variant reports
  \<open>finalAmount * finalConcentrationPercent / 100\<close> as the stock needed, whatever the
  stock concentration of step 1 is, and this is strictly less than
  \<open>finalConcentrationPercent * finalAmount / stockConcentrationPercent\<close>; its water is
  strictly more.
\<close>

theorem app_step2_is_not_the_dilution:
  assumes "0 < final_amount'" and "0 < final_conc'"
    and "0 < stock_conc'" and "stock_conc' < 100"
    and "app_step1_complete g" and "app_stock_conc g = stock_conc'"
  shows "fst (app_step2 final_amount' final_conc' g) =
           Some (final_amount' * (final_conc' / 100),
                 final_amount' - final_amount' * (final_conc' / 100)) \<and>
         final_amount' * (final_conc' / 100) < stock_needed final_conc' final_amount' stock_conc' \<and>
         water_needed final_amount' (stock_needed final_conc' final_amount' stock_conc')
           < final_amount' - final_amount' * (final_conc' / 100)"
proof -
  have pos: "0 < final_conc' * final_amount'" using assms(1,2) by simp
  have "final_conc' * final_amount' / 100 < final_conc' * final_amount' / stock_conc'"
    using pos assms(3,4) by (intro divide_strict_left_mono) simp_all
  then have lt: "final_amount' * (final_conc' / 100) < stock_needed final_conc' final_amount' stock_conc'"
    by (simp add: stock_needed_def mult.commute)
  show ?thesis
    using lt assms(5)
    by (simp add: app_step2_def app_calculate_solution_def water_needed_def Let_def)
qed

text \<open>
  The theorem on a stock at 1 percent, for 200 at 0.1 percent: 0.2 and 199.8 in
  \<^verbatim>\<open>app.py\<close>, against 20 and 180.
\<close>

theorem app_step2_is_not_the_dilution_witness:
  "(0::real) < 200 \<and> (0::real) < 1 / 10 \<and> (0::real) < 1 \<and> (1::real) < 100 \<and>
   app_step1_complete (snd (app_step1 200 1 app_start)) \<and>
   app_stock_conc (snd (app_step1 200 1 app_start)) = 1 \<and>
   fst (app_step2 200 (1 / 10) (snd (app_step1 200 1 app_start))) = Some (1 / 5, 999 / 5) \<and>
   (1 / 5 :: real) < stock_needed (1 / 10) 200 1 \<and>
   water_needed 200 (stock_needed (1 / 10) 200 1) < (999 / 5 :: real)"
  using app_step2_is_not_the_dilution [of 200 "1 / 10" 1 "snd (app_step1 200 1 app_start)"]
  by (simp add: app_step1_def app_calculate_solution_def app_start_def Let_def)

subsection \<open>C4: the validator\<close>

text \<open>
  C4. \<^verbatim>\<open>validate_inputs\<close> is the validator of the specification: it checks all five
  rules, in order, and returns one message for each violated rule and nothing else. So the
  number of messages is the number of violated rules, the message of a rule is in the
  result exactly when the rule is violated, and the result is empty exactly when every
  rule holds.
\<close>

theorem validate_inputs_checks_every_rule:
  "validate_inputs amount concentration step_name s =
     spec_validate amount concentration step_name s \<and>
   length (validate_inputs amount concentration step_name s) =
     length (filter (\<lambda>r. \<not> rule_holds r amount concentration step_name s) all_rules) \<and>
   (\<forall>r. violation_message step_name r \<in> set (validate_inputs amount concentration step_name s)
          \<longleftrightarrow> \<not> rule_holds r amount concentration step_name s) \<and>
   (validate_inputs amount concentration step_name s = []
      \<longleftrightarrow> (\<forall>r. rule_holds r amount concentration step_name s))"
proof -
  have eq: "validate_inputs amount concentration step_name s =
              spec_validate amount concentration step_name s"
    by (cases "stock_conc s")
      (simp_all add: validate_inputs_def spec_validate_def all_rules_def Let_def not_less not_le)
  have len: "length (spec_validate amount concentration step_name s) =
               length (filter (\<lambda>r. \<not> rule_holds r amount concentration step_name s) all_rules)"
    by (simp add: spec_validate_def)
  have mem: "violation_message step_name r \<in> set (spec_validate amount concentration step_name s)
               \<longleftrightarrow> \<not> rule_holds r amount concentration step_name s" for r
  proof
    assume "violation_message step_name r \<in> set (spec_validate amount concentration step_name s)"
    then obtain r' where r': "\<not> rule_holds r' amount concentration step_name s"
      and m: "violation_message step_name r = violation_message step_name r'"
      by (auto simp add: spec_validate_def)
    from violation_message_inj[OF m] r'
    show "\<not> rule_holds r amount concentration step_name s" by simp
  next
    assume v: "\<not> rule_holds r amount concentration step_name s"
    have "r \<in> set all_rules" by (cases r) (simp_all add: all_rules_def)
    with v show "violation_message step_name r \<in> set (spec_validate amount concentration step_name s)"
      by (auto simp add: spec_validate_def)
  qed
  have nil: "spec_validate amount concentration step_name s = []
               \<longleftrightarrow> (\<forall>r. rule_holds r amount concentration step_name s)"
    by (subst all_rules_complete) (simp add: spec_validate_def filter_empty_conv)
  show ?thesis using eq len mem nil by simp
qed

text \<open>
  The theorem on the amount \<open>-5\<close> at 1 percent for the stock solution: the one violation
  is that the amount must be greater than 0. On the amount 200 every rule holds.
\<close>

theorem validate_inputs_scenario4:
  "validate_inputs (- 5) 1 ''Stock Solution'' fresh_session =
     [''Stock Solution: Amount must be greater than 0''] \<and>
   spec_validate (- 5) 1 ''Stock Solution'' fresh_session =
     [violation_message ''Stock Solution'' Amount_positive] \<and>
   \<not> rule_holds Amount_positive (- 5) 1 ''Stock Solution'' fresh_session \<and>
   validate_inputs 200 1 ''Stock Solution'' fresh_session = [] \<and>
   (\<forall>r. rule_holds r 200 1 ''Stock Solution'' fresh_session)"
  using validate_inputs_checks_every_rule [of "- 5" 1 "''Stock Solution''" fresh_session]
    validate_inputs_checks_every_rule [of 200 1 "''Stock Solution''" fresh_session]
  by (simp add: validate_inputs_def spec_validate_def all_rules_def fresh_session_def)

subsection \<open>C5: a final concentration that is not below the stock concentration\<close>

text \<open>
  C5. When the stock concentration is not greater than the requested final concentration,
  the handler of the final dilution shows the violation "Final concentration should be
  lower than stock concentration", clears \<^verbatim>\<open>step2_completed\<close> and changes nothing else in
  the session: no dilution is computed or stored. The validator reads the stock
  concentration of the session, which is the one of the stored stock record whenever step 1
  is complete (\<open>reachable_consistent\<close>).
\<close>

theorem final_dilution_rejects_non_dilution:
  assumes "stock_conc (session w) = Some stock_conc'"
    and "stock_conc' \<le> final_conc (session w)"
  shows "''Final concentration should be lower than stock concentration''
           \<in> set (validate_inputs (final_amount (session w)) (final_conc (session w))
                    ''Final Dilution'' (session w)) \<and>
         calculate_final_dilution_button w =
           Inr (w\<lparr>session := (session w)\<lparr>step2_completed := False\<rparr>,
                  events := events w @ map St_error
                    (validate_inputs (final_amount (session w)) (final_conc (session w))
                       ''Final Dilution'' (session w))\<rparr>)"
proof -
  have m: "''Final concentration should be lower than stock concentration''
           \<in> set (validate_inputs (final_amount (session w)) (final_conc (session w))
                    ''Final Dilution'' (session w))"
    using assms by (simp add: validate_inputs_def Let_def)
  then have "validate_inputs (final_amount (session w)) (final_conc (session w))
               ''Final Dilution'' (session w) \<noteq> []"
    by auto
  from m final_button_rejected[OF this] show ?thesis by simp
qed

text \<open>
  The theorem on a stock of 200 at 0.3 percent and a final 200 at 0.5 percent.
\<close>

theorem final_dilution_rejects_non_dilution_witness:
  "stock_conc (session (after_stock_solution 200 (3 / 10) 200 (1 / 2))) = Some (3 / 10) \<and>
   (3 / 10 :: real) \<le> final_conc (session (after_stock_solution 200 (3 / 10) 200 (1 / 2))) \<and>
   (case calculate_final_dilution_button (after_stock_solution 200 (3 / 10) 200 (1 / 2)) of
      Inl e \<Rightarrow> False
    | Inr w' \<Rightarrow>
        session w' = session (after_stock_solution 200 (3 / 10) 200 (1 / 2)) \<and>
        \<not> step2_completed (session w') \<and>
        dilution_calculations (session w') = Map.empty \<and>
        events w' = events (after_stock_solution 200 (3 / 10) 200 (1 / 2)) @
          [St_error ''Final concentration should be lower than stock concentration''])"
  using final_dilution_rejects_non_dilution
    [of "after_stock_solution 200 (3 / 10) 200 (1 / 2)" "3 / 10"]
  by (simp add: after_stock_solution_eq validate_inputs_def)

subsection \<open>C6: insufficient stock\<close>

text \<open>
  C6. When the inputs of the final dilution are valid, the handler does not raise, and the
  two numbers that it computes in double precision are finite. It completes step 2
  exactly when the stock needed, as computed, is at most the stock available. When the
  stock needed exceeds it, the handler shows the error with both amounts, clears
  \<^verbatim>\<open>step2_completed\<close> and changes nothing else in the session; otherwise it stores the
  dilution. The hypotheses hold in every reachable session in which step 1 is complete
  (\<open>reachable_stock_record\<close>), and no run of a reachable session raises
  (\<open>main_run_total\<close>). The test is on the rounded number:
  \<open>final_dilution_exactly_enough\<close> and \<open>final_dilution_rounded_up\<close> are two sessions in
  which the exact quotient is on the other side of the stock available.
\<close>

theorem final_dilution_sufficiency:
  assumes "validate_inputs (final_amount (session w)) (final_conc (session w))
             ''Final Dilution'' (session w) = []"
    and "stock_conc (session w) = Some stock_conc'"
    and "is_double stock_conc'"
    and "get_float (stock_calculations (session w)) ''stock_conc'' = Inr stock_conc'"
    and "get_float (stock_calculations (session w)) ''stock_amount'' = Inr available_stock"
  shows "(case stock_needed_double (final_conc (session w)) (final_amount (session w))
                 stock_conc' of
            None \<Rightarrow> False
          | Some stock_needed' \<Rightarrow>
              (case water_needed_double (final_amount (session w)) stock_needed' of
                 None \<Rightarrow> False
               | Some water_needed' \<Rightarrow>
                   (case calculate_final_dilution_button w of
                      Inl e \<Rightarrow> False
                    | Inr w' \<Rightarrow>
                        (step2_completed (session w') \<longleftrightarrow> stock_needed' \<le> available_stock) \<and>
                        (if stock_needed' > available_stock
                         then session w' = (session w)\<lparr>step2_completed := False\<rparr> \<and>
                              events w' = events w @
                                [St_error_insufficient stock_needed'
                                   (fst (get_unit_config (session w))) available_stock]
                         else dilution_calculations (session w') ''stock_needed'' =
                                Some (Float stock_needed') \<and>
                              dilution_calculations (session w') ''water_needed'' =
                                Some (Float water_needed') \<and>
                              events w' = events w))))"
proof -
  let ?s = "session w"
  from assms(1) have v: "0 < final_amount ?s" "final_amount ?s \<le> 10000" "0 < final_conc ?s"
    "final_conc ?s < 100" "final_conc ?s < stock_conc'"
    by (simp_all add: validate_final_nil[OF assms(2)])
  from dilution_finite[OF v(3,4,5) v(1,2) assms(3)] obtain sn wn where
    sn: "stock_needed_double (final_conc ?s) (final_amount ?s) stock_conc' = Some sn" and
    wn: "water_needed_double (final_amount ?s) sn = Some wn"
    by blast
  have nz: "stock_conc' \<noteq> 0" using v(3,5) by simp
  show ?thesis
    by (simp add: final_button_computed[OF assms(1) assms(4) nz sn wn assms(5)] sn wn)
qed

text \<open>
  The theorem on a stock of 20 at 1 percent and a final 250 at 0.1 percent: 25 are needed,
  20 are available, 5 are missing, and step 2 is not complete.
\<close>

theorem final_dilution_sufficiency_witness:
  "validate_inputs
     (final_amount (session (after_stock_solution 20 1 250 (double_of 7205759403792794 (- 56)))))
     (final_conc (session (after_stock_solution 20 1 250 (double_of 7205759403792794 (- 56)))))
     ''Final Dilution''
     (session (after_stock_solution 20 1 250 (double_of 7205759403792794 (- 56)))) = [] \<and>
   stock_conc (session (after_stock_solution 20 1 250 (double_of 7205759403792794 (- 56))))
     = Some 1 \<and>
   is_double 1 \<and>
   get_float (stock_calculations
       (session (after_stock_solution 20 1 250 (double_of 7205759403792794 (- 56)))))
     ''stock_conc'' = Inr 1 \<and>
   get_float (stock_calculations
       (session (after_stock_solution 20 1 250 (double_of 7205759403792794 (- 56)))))
     ''stock_amount'' = Inr 20 \<and>
   stock_needed_double (double_of 7205759403792794 (- 56)) 250 1 = Some 25 \<and>
   (25::real) - 20 = 5 \<and>
   (case calculate_final_dilution_button
           (after_stock_solution 20 1 250 (double_of 7205759403792794 (- 56))) of
      Inl e \<Rightarrow> False
    | Inr w' \<Rightarrow>
        \<not> step2_completed (session w') \<and>
        session w' = session (after_stock_solution 20 1 250 (double_of 7205759403792794 (- 56))) \<and>
        events w' = events (after_stock_solution 20 1 250 (double_of 7205759403792794 (- 56))) @
          [St_error_insufficient 25 ''g'' 20])"
proof -
  let ?w = "after_stock_solution 20 1 250 (double_of 7205759403792794 (- 56))"
  have v: "validate_inputs (final_amount (session ?w)) (final_conc (session ?w))
             ''Final Dilution'' (session ?w) = []"
    by (simp add: after_stock_solution_eq validate_inputs_def tenth_bounds)
  have sc: "stock_conc (session ?w) = Some 1"
    by (simp add: after_stock_solution_eq)
  have g1: "get_float (stock_calculations (session ?w)) ''stock_conc'' = Inr 1"
    by (simp add: after_stock_solution_eq get_float_def)
  have g2: "get_float (stock_calculations (session ?w)) ''stock_amount'' = Inr 20"
    by (simp add: after_stock_solution_eq get_float_def)
  have n: "stock_needed_double (final_conc (session ?w)) (final_amount (session ?w)) 1 = Some 25"
    by (simp add: after_stock_solution_eq stock_needed_double_scenario5)
  have m: "water_needed_double (final_amount (session ?w)) 25 = Some 225"
    by (simp add: after_stock_solution_eq water_needed_double_scenario5)
  have u: "fst (get_unit_config (session ?w)) = ''g''"
    by (simp add: after_stock_solution_eq get_unit_config_def UNIT_CONFIGS_def)
  have k: "(session ?w)\<lparr>step2_completed := False\<rparr> = session ?w"
    "\<not> step2_completed (session ?w)"
    by (simp_all add: after_stock_solution_eq)
  from final_dilution_sufficiency [OF v sc is_double_one g1 g2]
  show ?thesis
    using v sc g1 g2
    by (simp add: n m u k is_double_one stock_needed_double_scenario5 split: sum.splits)
qed

subsection \<open>C7: non-positive inputs of the solution calculator\<close>




subsection \<open>C8: monotonicity of the stock needed\<close>

text \<open>
  C8 as stated fails on the value that the code computes. With a stock at 3 percent and a
  final amount of 100, the final concentrations \<open>1.5000000000000004\<close> and
  \<open>1.5000000000000007\<close>, two neighbouring doubles, give the same stock needed,
  \<open>50.00000000000002\<close>: the smaller one does not give strictly less.
\<close>

theorem stock_needed_double_not_strict:
  "(0::real) < 3 \<and> (0::real) < 100 \<and> is_double 3 \<and> is_double 100 \<and>
   is_double (double_of 6755399441055746 (- 52)) \<and>
   is_double (double_of 6755399441055747 (- 52)) \<and>
   0 < double_of 6755399441055746 (- 52) \<and>
   double_of 6755399441055746 (- 52) < double_of 6755399441055747 (- 52) \<and>
   stock_needed_double (double_of 6755399441055746 (- 52)) 100 3 =
     stock_needed_double (double_of 6755399441055747 (- 52)) 100 3 \<and>
   stock_needed_double (double_of 6755399441055746 (- 52)) 100 3 \<noteq> None"
proof -
  have "(0::real) < double_of 6755399441055746 (- 52)"
    "double_of 6755399441055746 (- 52) < double_of 6755399441055747 (- 52)"
    by (simp_all add: double_of_def)
  then show ?thesis
    by (simp add: is_double_3 is_double_100 is_double_neighbours
        stock_needed_double_neighbour1 stock_needed_double_neighbour2)
qed

text \<open>
  C8, amended. For a fixed positive stock concentration and a fixed positive final amount,
  the stock needed is strictly increasing in the final concentration in exact arithmetic,
  and the value computed in double precision is non-decreasing: a larger final
  concentration never gives less stock needed. The available stock plays no part.
\<close>

theorem stock_needed_monotone:
  assumes "0 < stock_conc'" and "0 < final_amount'" and "0 < c1" and "c1 < c2"
  shows "stock_needed c1 final_amount' stock_conc' < stock_needed c2 final_amount' stock_conc' \<and>
         (case (stock_needed_double c1 final_amount' stock_conc',
                stock_needed_double c2 final_amount' stock_conc') of
            (Some s1, Some s2) \<Rightarrow> s1 \<le> s2
          | _ \<Rightarrow> True)"
proof -
  have "s1 \<le> s2"
    if "stock_needed_double c1 final_amount' stock_conc' = Some s1"
      and "stock_needed_double c2 final_amount' stock_conc' = Some s2" for s1 s2
    using stock_needed_double_mono[OF assms(1) _ _ _ that] assms(2,3,4) by simp
  with stock_needed_strictly_increasing_exact[OF assms] show ?thesis
    by (auto split: option.splits)
qed

text \<open>
  The theorem on a stock at 1 percent and a final amount of 200, for the doubles nearest
  to 0.1 and to 0.2: 20 and 40 of stock.
\<close>

theorem stock_needed_monotone_witness:
  "(0::real) < 1 \<and> (0::real) < 200 \<and>
   0 < double_of 7205759403792794 (- 56) \<and>
   double_of 7205759403792794 (- 56) < double_of 7205759403792794 (- 55) \<and>
   stock_needed (double_of 7205759403792794 (- 56)) 200 1
     < stock_needed (double_of 7205759403792794 (- 55)) 200 1 \<and>
   stock_needed_double (double_of 7205759403792794 (- 56)) 200 1 = Some 20 \<and>
   stock_needed_double (double_of 7205759403792794 (- 55)) 200 1 = Some 40 \<and>
   (20::real) \<le> 40"
proof -
  have o: "(0::real) < double_of 7205759403792794 (- 56)"
    "double_of 7205759403792794 (- 56) < double_of 7205759403792794 (- 55)"
    by (simp_all add: double_of_def)
  have p: "(0::real) < 1" "(0::real) < 200" by simp_all
  from stock_needed_monotone [OF p o] o
  show ?thesis
    by (simp add: stock_needed_double_tenth stock_needed_double_fifth)
qed

subsection \<open>C9: the error paths keep the stored dilution\<close>

text \<open>
  C9. When the handler of the final dilution returns after the validation has found
  violations, or after the stock needed, as computed in double precision, has exceeded the
  stock available, or in any other way that leaves \<^verbatim>\<open>step2_completed\<close> false, the session
  it leaves is the session it found with \<^verbatim>\<open>step2_completed\<close> cleared: the stored
  \<^verbatim>\<open>dilution_calculations\<close> is the one from before.
\<close>

theorem final_dilution_error_keeps_record:
  assumes "calculate_final_dilution_button w = Inr w'"
    and "validate_inputs (final_amount (session w)) (final_conc (session w))
           ''Final Dilution'' (session w) \<noteq> [] \<or>
         (case (get_float (stock_calculations (session w)) ''stock_conc'',
                get_float (stock_calculations (session w)) ''stock_amount'') of
            (Inr stock_conc', Inr available_stock) \<Rightarrow>
              (case stock_needed_double (final_conc (session w)) (final_amount (session w))
                      stock_conc' of
                 None \<Rightarrow> False
               | Some stock_needed' \<Rightarrow> stock_needed' > available_stock)
          | _ \<Rightarrow> False) \<or>
         \<not> step2_completed (session w')"
  shows "session w' = (session w)\<lparr>step2_completed := False\<rparr> \<and>
         dilution_calculations (session w') = dilution_calculations (session w)"
proof -
  from final_button_cases[OF assms(1)] show ?thesis
  proof
    assume "session w' = (session w)\<lparr>step2_completed := False\<rparr>"
    then show ?thesis by simp
  next
    assume "step2_completed (session w') \<and>
      validate_inputs (final_amount (session w)) (final_conc (session w))
        ''Final Dilution'' (session w) = [] \<and>
      (\<exists>sc available sn.
          get_float (stock_calculations (session w)) ''stock_conc'' = Inr sc \<and>
          get_float (stock_calculations (session w)) ''stock_amount'' = Inr available \<and>
          stock_needed_double (final_conc (session w)) (final_amount (session w)) sc = Some sn \<and>
          sn \<le> available)"
    with assms(2) show ?thesis by auto
  qed
qed

text \<open>
  The theorem after a dilution of 200 at 0.1 percent from a stock of 200 at 1 percent has
  been stored. When the final concentration has then been set to 2 percent, the
  validation rejects; when the final amount has been set to 2500, the stock needed is 250
  and exceeds the 200 available. In both cases the stored record still holds 20 and 180.
\<close>

theorem final_dilution_error_keeps_record_witness:
  "(case calculate_final_dilution_button
           (update_session (final_inputs 200 2)
              (after_final_dilution 200 1 200 (double_of 7205759403792794 (- 56)))) of
      Inl e \<Rightarrow> False
    | Inr w' \<Rightarrow>
        validate_inputs 200 2 ''Final Dilution''
          (session (update_session (final_inputs 200 2)
             (after_final_dilution 200 1 200 (double_of 7205759403792794 (- 56)))))
          = [''Final concentration should be lower than stock concentration''] \<and>
        session w' =
          session (update_session (final_inputs 200 2)
             (after_final_dilution 200 1 200 (double_of 7205759403792794 (- 56)))) \<and>
        \<not> step2_completed (session w') \<and>
        dilution_calculations (session w') ''stock_needed'' = Some (Float 20) \<and>
        dilution_calculations (session w') ''water_needed'' = Some (Float 180)) \<and>
   (case calculate_final_dilution_button
           (update_session (final_inputs 2500 (double_of 7205759403792794 (- 56)))
              (after_final_dilution 200 1 200 (double_of 7205759403792794 (- 56)))) of
      Inl e \<Rightarrow> False
    | Inr w' \<Rightarrow>
        stock_needed_double (double_of 7205759403792794 (- 56)) 2500 1 = Some 250 \<and>
        session w' =
          session (update_session (final_inputs 2500 (double_of 7205759403792794 (- 56)))
             (after_final_dilution 200 1 200 (double_of 7205759403792794 (- 56)))) \<and>
        \<not> step2_completed (session w') \<and>
        dilution_calculations (session w') ''stock_needed'' = Some (Float 20) \<and>
        dilution_calculations (session w') ''water_needed'' = Some (Float 180))"
proof -
  let ?d = "double_of 7205759403792794 (- 56)"
  let ?w = "update_session (final_inputs 200 2) (after_final_dilution 200 1 200 ?d)"
  let ?u = "update_session (final_inputs 2500 ?d) (after_final_dilution 200 1 200 ?d)"
  have s: "session ?w =
      (session (after_final_dilution 200 1 200 ?d))\<lparr>final_conc := 2, step2_completed := False\<rparr>"
    by (simp add: update_session_def final_inputs_def after_final_dilution_scenario2
        after_stock_solution_eq tenth_bounds)
  have v: "validate_inputs (final_amount (session ?w)) (final_conc (session ?w))
             ''Final Dilution'' (session ?w)
           = [''Final concentration should be lower than stock concentration'']"
    by (simp add: s after_final_dilution_scenario2 after_stock_solution_eq validate_inputs_def)
  obtain w' where r: "calculate_final_dilution_button ?w = Inr w'"
    using final_button_rejected[of ?w] v by simp
  from final_dilution_error_keeps_record[OF r] v
  have k: "session w' = (session ?w)\<lparr>step2_completed := False\<rparr>" by simp
  have first: "(case calculate_final_dilution_button ?w of
      Inl e \<Rightarrow> False
    | Inr w' \<Rightarrow>
        validate_inputs 200 2 ''Final Dilution'' (session ?w)
          = [''Final concentration should be lower than stock concentration''] \<and>
        session w' = session ?w \<and>
        \<not> step2_completed (session w') \<and>
        dilution_calculations (session w') ''stock_needed'' = Some (Float 20) \<and>
        dilution_calculations (session w') ''water_needed'' = Some (Float 180))"
    using r k v
    by (simp add: s after_final_dilution_scenario2 after_stock_solution_eq)
  have t: "session ?u =
      (session (after_final_dilution 200 1 200 ?d))\<lparr>final_amount := 2500, step2_completed := False\<rparr>"
    by (simp add: update_session_def final_inputs_def after_final_dilution_scenario2
        after_stock_solution_eq)
  have g1: "get_float (stock_calculations (session ?u)) ''stock_conc'' = Inr 1"
    by (simp add: t after_final_dilution_scenario2 after_stock_solution_eq get_float_def)
  have g2: "get_float (stock_calculations (session ?u)) ''stock_amount'' = Inr 200"
    by (simp add: t after_final_dilution_scenario2 after_stock_solution_eq get_float_def)
  have fa: "final_amount (session ?u) = 2500" "final_conc (session ?u) = ?d"
    by (simp_all add: t after_final_dilution_scenario2 after_stock_solution_eq)
  have v2: "validate_inputs (final_amount (session ?u)) (final_conc (session ?u))
             ''Final Dilution'' (session ?u) = []"
    by (simp add: t after_final_dilution_scenario2 after_stock_solution_eq validate_inputs_def
        tenth_bounds)
  have sn2: "stock_needed_double (final_conc (session ?u)) (final_amount (session ?u)) 1
               = Some 250"
    by (simp add: fa stock_needed_double_2500)
  have wn2: "water_needed_double (final_amount (session ?u)) 250 = Some 2250"
    by (simp add: fa water_needed_double_2500)
  have nz: "(1::real) \<noteq> 0" by simp
  have "\<exists>u'. calculate_final_dilution_button ?u = Inr u'"
    by (simp add: final_button_computed[OF v2 g1 nz sn2 wn2 g2])
  then obtain u' where r2: "calculate_final_dilution_button ?u = Inr u'" ..
  have h: "(case (get_float (stock_calculations (session ?u)) ''stock_conc'',
                get_float (stock_calculations (session ?u)) ''stock_amount'') of
            (Inr stock_conc', Inr available_stock) \<Rightarrow>
              (case stock_needed_double (final_conc (session ?u)) (final_amount (session ?u))
                      stock_conc' of
                 None \<Rightarrow> False
               | Some stock_needed' \<Rightarrow> stock_needed' > available_stock)
          | _ \<Rightarrow> False)"
    by (simp add: g1 g2 fa stock_needed_double_2500)
  from final_dilution_error_keeps_record[OF r2] h
  have k2: "session u' = (session ?u)\<lparr>step2_completed := False\<rparr>" by simp
  have second: "(case calculate_final_dilution_button ?u of
      Inl e \<Rightarrow> False
    | Inr w' \<Rightarrow>
        stock_needed_double ?d 2500 1 = Some 250 \<and>
        session w' = session ?u \<and>
        \<not> step2_completed (session w') \<and>
        dilution_calculations (session w') ''stock_needed'' = Some (Float 20) \<and>
        dilution_calculations (session w') ''water_needed'' = Some (Float 180))"
    using r2 k2
    by (simp add: t after_final_dilution_scenario2 after_stock_solution_eq stock_needed_double_2500)
  from first second show ?thesis by simp
qed

subsection \<open>C10: no hidden state in the solution calculator\<close>

text \<open>
  C10. The pair that \<^verbatim>\<open>calculate_solution\<close> returns depends on its two arguments only:
  two calls with the same arguments return the same pair from any two worlds (session,
  log and page) in \<^verbatim>\<open>mode_flocculant_agent.py\<close>, and from any two values of the module
  variables in \<^verbatim>\<open>app.py\<close>. The call leaves the session as it is. The validator is not
  of this kind: \<open>validate_inputs_reads_session\<close>.
\<close>

theorem calculate_solution_deterministic:
  "fst (calculate_solution amount concentration w) = fst (calculate_solution amount concentration w') \<and>
   session (snd (calculate_solution amount concentration w)) = session w \<and>
   app_calculate_solution amount concentration g = app_calculate_solution amount concentration g'"
  by (simp add: calculate_solution_def calculate_solution_try_def app_calculate_solution_def
      emit_def Let_def)

end
